theory Spec2Isabelle
  imports Complex_Main "HOL-Library.Multiset"
begin

section \<open>The balanced multilingual merger (balanced_split.py)\<close>

text \<open>
  A shallow embedding of \<^verbatim>\<open>balanced_split.py\<close>. A Python \<^verbatim>\<open>str\<close> is a list of code
  points, so that \<open>length\<close> is Python's \<^verbatim>\<open>len\<close>; Python's unbounded integers are \<open>int\<close>;
  an exception is the \<open>Inl\<close> branch of a sum.
\<close>

subsection \<open>Strings, slices and ranges\<close>

type_synonym pystr = "nat list"

definition str :: "string \<Rightarrow> pystr" where
  "str s = map of_char s"

datatype py_error = ValueError | KeyError | OverflowError | OSError

text \<open>
  An index of a slice \<^verbatim>\<open>xs[i:j]\<close>: a negative one counts from the end, and both ends
  are clamped to the list.
\<close>

definition clamp_index :: "int \<Rightarrow> nat \<Rightarrow> nat" where
  "clamp_index i n = (if i < 0 then nat (max 0 (int n + i)) else min (nat i) n)"

definition slice :: "'a list \<Rightarrow> int \<Rightarrow> int \<Rightarrow> 'a list" where
  "slice xs i j =
     (let a = clamp_index i (length xs); b = clamp_index j (length xs)
      in take (b - a) (drop a xs))"

text \<open>\<^verbatim>\<open>range(0, stop, step)\<close>; a step of zero raises ValueError.\<close>

definition range0 :: "int \<Rightarrow> int \<Rightarrow> py_error + int list" where
  "range0 stop step =
     (if step = 0 then Inl ValueError
      else if 0 < step then Inr (map (\<lambda>k. int k * step) [0..<nat ((stop + step - 1) div step)])
      else Inr (map (\<lambda>k. int k * step) [0..<nat ((stop + step + 1) div step)]))"

subsection \<open>interleave_texts\<close>

text \<open>
  \<^verbatim>\<open>[text[i:i+chunk_size] for i in range(0, len(text), chunk_size)]\<close>
\<close>

definition chunks_of :: "'a list \<Rightarrow> int \<Rightarrow> py_error + 'a list list" where
  "chunks_of txt chunk_size =
     (case range0 (int (length txt)) chunk_size of
        Inl e \<Rightarrow> Inl e
      | Inr idx \<Rightarrow> Inr (map (\<lambda>i. slice txt i (i + chunk_size)) idx))"

text \<open>
  The loop \<^verbatim>\<open>for i in range(max_len)\<close>, which appends \<^verbatim>\<open>chunks1[i]\<close> and then
  \<^verbatim>\<open>chunks2[i]\<close>, each when the index is in range.
\<close>

definition interleave_chunks :: "'a list list \<Rightarrow> 'a list list \<Rightarrow> 'a list list" where
  "interleave_chunks chunks1 chunks2 =
     concat (map (\<lambda>i. (if i < length chunks1 then [chunks1 ! i] else []) @
                       (if i < length chunks2 then [chunks2 ! i] else []))
                 [0..<max (length chunks1) (length chunks2)])"

definition interleave_texts :: "'a list \<Rightarrow> 'a list \<Rightarrow> int \<Rightarrow> py_error + 'a list" where
  "interleave_texts text1 text2 chunk_size =
     (if text1 = [] then Inr text2
      else if text2 = [] then Inr text1
      else (case chunks_of text1 chunk_size of
              Inl e \<Rightarrow> Inl e
            | Inr chunks1 \<Rightarrow>
                (case chunks_of text2 chunk_size of
                   Inl e \<Rightarrow> Inl e
                 | Inr chunks2 \<Rightarrow> Inr (concat (interleave_chunks chunks1 chunks2)))))"

text \<open>
  The same loop as a recursion on the two chunk lists; \<open>interleave_chunks_alternate\<close>
  below shows that both agree.
\<close>

fun alternate :: "'a list \<Rightarrow> 'a list \<Rightarrow> 'a list" where
  "alternate [] ys = ys"
| "alternate xs [] = xs"
| "alternate (x # xs) (y # ys) = x # y # alternate xs ys"

subsection \<open>Configuration\<close>

text \<open>
  The module constants. \<^verbatim>\<open>LANGUAGE_DATA\<close> is a dict of dicts with the keys
  \<^verbatim>\<open>'wiki'\<close>, \<^verbatim>\<open>'oscar'\<close> and \<^verbatim>\<open>'total'\<close>: an association list of records, in
  the insertion order that iterating over the dict follows. The functions below take both
  tables as a \<open>config\<close>, and \<open>source_config\<close> holds the values of the source.
\<close>

record profile =
  wiki :: int
  oscar :: int
  total :: int

record config =
  languages :: "pystr list"
  language_data :: "(pystr \<times> profile) list"

definition LANGUAGES :: "pystr list" where
  "LANGUAGES = map str [''yo'', ''ar'', ''zh'', ''ru'', ''hi'', ''ja'', ''sw'', ''bn'', ''tr'']"

definition LANGUAGE_DATA :: "(pystr \<times> profile) list" where
  "LANGUAGE_DATA =
     [(str ''yo'', \<lparr>wiki = 12646633, oscar = 18209, total = 12664842\<rparr>),
      (str ''ar'', \<lparr>wiki = 1326903243, oscar = 50000000, total = 1376903243\<rparr>),
      (str ''zh'', \<lparr>wiki = 730233254, oscar = 50000000, total = 780233254\<rparr>),
      (str ''ru'', \<lparr>wiki = 4569290658, oscar = 50000000, total = 4619290658\<rparr>),
      (str ''hi'', \<lparr>wiki = 218280173, oscar = 50000000, total = 268280173\<rparr>),
      (str ''ja'', \<lparr>wiki = 1423270470, oscar = 50000000, total = 1473270470\<rparr>),
      (str ''sw'', \<lparr>wiki = 61130713, oscar = 8428241, total = 69558954\<rparr>),
      (str ''bn'', \<lparr>wiki = 368019974, oscar = 50000000, total = 418019974\<rparr>),
      (str ''tr'', \<lparr>wiki = 728714011, oscar = 50000000, total = 778714011\<rparr>)]"

definition source_config :: config where
  "source_config = \<lparr>languages = LANGUAGES, language_data = LANGUAGE_DATA\<rparr>"

definition WIKI_DIR :: pystr where
  "WIKI_DIR = str ''wiki_data_final''"

definition OSCAR_DIR :: pystr where
  "OSCAR_DIR = str ''output''"

definition OUTPUT_DIR :: pystr where
  "OUTPUT_DIR = str ''final_outputs''"

text \<open>
  \<^verbatim>\<open>os.path.join\<close> of two components, as \<^verbatim>\<open>posixpath\<close> has it: a second component
  that starts with a slash replaces the first.
\<close>

definition path_join :: "pystr \<Rightarrow> pystr \<Rightarrow> pystr" where
  "path_join a b =
     (if b \<noteq> [] \<and> hd b = 47 then b
      else if a = [] \<or> last a = 47 then a @ b
      else a @ [47] @ b)"

text \<open>
  \<^verbatim>\<open>str.upper\<close> on ASCII letters, which is what the language codes of \<^verbatim>\<open>LANGUAGES\<close>
  are made of. Other code points are left as they are; Python maps every cased letter
  and may change the length there, so the function stands for \<^verbatim>\<open>str.upper\<close> on ASCII
  codes only.
\<close>

definition upper :: "pystr \<Rightarrow> pystr" where
  "upper s = map (\<lambda>c. if 97 \<le> c \<and> c \<le> 122 then c - 32 else c) s"

subsection \<open>find_baseline_amounts\<close>

text \<open>
  The floats of \<^verbatim>\<open>int(min_total * config['ratio'])\<close>. A finite float is the rational
  it denotes. The arithmetic of the interpreter is a parameter: \<open>float_of_int\<close> converts
  the integer operand (None when it is too large for a float, which raises
  OverflowError), \<open>float_mul\<close> is the rounded product (None when it is not finite, on
  which \<^verbatim>\<open>int\<close> raises OverflowError).
\<close>

record float_ops =
  float_of_int :: "int \<Rightarrow> rat option"
  float_mul :: "rat \<Rightarrow> rat \<Rightarrow> rat option"

text \<open>\<^verbatim>\<open>int(x)\<close> of a finite float truncates towards zero.\<close>

definition py_int :: "rat \<Rightarrow> int" where
  "py_int x = (if 0 \<le> x then \<lfloor>x\<rfloor> else \<lceil>x\<rceil>)"

definition int_times_ratio :: "float_ops \<Rightarrow> int \<Rightarrow> rat \<Rightarrow> py_error + int" where
  "int_times_ratio fo min_total r =
     (case float_of_int fo min_total of
        None \<Rightarrow> Inl OverflowError
      | Some a \<Rightarrow> (case float_mul fo a r of
                    None \<Rightarrow> Inl OverflowError
                  | Some p \<Rightarrow> Inr (py_int p)))"

text \<open>
  \<^verbatim>\<open>min(xs, key=...)\<close> keeps the first of several least elements and raises ValueError
  on an empty sequence.
\<close>

fun min_by :: "('a \<Rightarrow> int) \<Rightarrow> 'a \<Rightarrow> 'a list \<Rightarrow> 'a" where
  "min_by key best [] = best"
| "min_by key best (x # xs) = min_by key (if key x < key best then x else best) xs"

definition py_min :: "('a \<Rightarrow> int) \<Rightarrow> 'a list \<Rightarrow> py_error + 'a" where
  "py_min key xs = (case xs of [] \<Rightarrow> Inl ValueError | x # rest \<Rightarrow> Inr (min_by key x rest))"

text \<open>
  The values of \<^verbatim>\<open>split_configs\<close>. The literal \<^verbatim>\<open>0.9\<close> is the binary64 number
  nearest to it, \<open>8106479329266893 / 2^53\<close>.
\<close>

record split_spec =
  ratio :: rat
  name :: pystr

definition split_configs :: "(pystr \<times> split_spec) list" where
  "split_configs =
     [(str ''small'', \<lparr>ratio = 8106479329266893 / 9007199254740992,
                        name = str ''final_balanced_small.txt''\<rparr>),
      (str ''medium'', \<lparr>ratio = 1, name = str ''final_balanced_medium.txt''\<rparr>),
      (str ''large'', \<lparr>ratio = 1, name = str ''final_balanced_large.txt''\<rparr>)]"

text \<open>
  One value of \<^verbatim>\<open>baseline_amounts\<close>; the key \<^verbatim>\<open>'total_chars'\<close> is the field
  \<open>split_total_chars\<close>.
\<close>

record split_config =
  chars_per_lang :: int
  filename :: pystr
  split_total_chars :: int
  baseline_lang :: pystr

text \<open>
  Lines 36 and 37: the key with the least \<^verbatim>\<open>'total'\<close> and that total. The keys of a
  dict are distinct, so the least item of the association list is the entry that
  \<^verbatim>\<open>LANGUAGE_DATA[min_lang]\<close> reads.
\<close>

definition baseline :: "config \<Rightarrow> py_error + (pystr \<times> int)" where
  "baseline cfg =
     (case py_min (\<lambda>item. total (snd item)) (language_data cfg) of
        Inl e \<Rightarrow> Inl e
      | Inr item \<Rightarrow> Inr (fst item, total (snd item)))"

text \<open>The body of the loop over \<^verbatim>\<open>split_configs\<close>, lines 51 to 57.\<close>

definition split_entry ::
  "float_ops \<Rightarrow> config \<Rightarrow> pystr \<Rightarrow> int \<Rightarrow> split_spec \<Rightarrow> py_error + split_config" where
  "split_entry fo cfg min_lang min_total config =
     (case int_times_ratio fo min_total (ratio config) of
        Inl e \<Rightarrow> Inl e
      | Inr n \<Rightarrow> Inr \<lparr>chars_per_lang = n,
                      filename = name config,
                      split_total_chars = n * int (length (languages cfg)),
                      baseline_lang = min_lang\<rparr>)"

fun split_entries ::
  "float_ops \<Rightarrow> config \<Rightarrow> pystr \<Rightarrow> int \<Rightarrow> (pystr \<times> split_spec) list
     \<Rightarrow> py_error + (pystr \<times> split_config) list" where
  "split_entries fo cfg min_lang min_total [] = Inr []"
| "split_entries fo cfg min_lang min_total ((split_name, config) # rest) =
     (case split_entry fo cfg min_lang min_total config of
        Inl e \<Rightarrow> Inl e
      | Inr entry \<Rightarrow>
          (case split_entries fo cfg min_lang min_total rest of
             Inl e \<Rightarrow> Inl e
           | Inr entries \<Rightarrow> Inr ((split_name, entry) # entries)))"

text \<open>
  The plans for a list of split configurations, and \<^verbatim>\<open>find_baseline_amounts\<close> itself,
  which is that for the \<^verbatim>\<open>split_configs\<close> of the source. The names of the splits are
  distinct, so the dict \<^verbatim>\<open>baseline_amounts\<close> holds one entry for each, in this order.
\<close>

definition baseline_amounts_for ::
  "float_ops \<Rightarrow> config \<Rightarrow> (pystr \<times> split_spec) list
     \<Rightarrow> py_error + (pystr \<times> split_config) list" where
  "baseline_amounts_for fo cfg configs =
     (case baseline cfg of
        Inl e \<Rightarrow> Inl e
      | Inr (min_lang, min_total) \<Rightarrow> split_entries fo cfg min_lang min_total configs)"

definition find_baseline_amounts ::
  "float_ops \<Rightarrow> config \<Rightarrow> py_error + (pystr \<times> split_config) list" where
  "find_baseline_amounts fo cfg = baseline_amounts_for fo cfg split_configs"

subsection \<open>load_text_file\<close>

text \<open>
  What opening and reading a path does: FileNotFoundError, any other exception, or the
  decoded content. The warnings and the truncation notice that the program prints are
  kept as events; its progress messages are left out.
\<close>

datatype source_file = Missing | Unreadable | Content pystr

type_synonym filesystem = "pystr \<Rightarrow> source_file"

datatype event =
    FileNotFound pystr
  | ReadError pystr
  | Truncated int
  | SplitFailed pystr py_error

text \<open>\<^verbatim>\<open>f.read(n)\<close>: at most \<open>n\<close> characters, and everything when \<open>n\<close> is negative.\<close>

definition file_read :: "pystr \<Rightarrow> int \<Rightarrow> pystr" where
  "file_read s n = (if n < 0 then s else take (nat n) s)"

text \<open>
  \<^verbatim>\<open>if max_chars:\<close> is false for \<^verbatim>\<open>None\<close> and for \<^verbatim>\<open>0\<close>; both fall through to
  \<^verbatim>\<open>f.read()\<close>.
\<close>

definition load_text_file :: "filesystem \<Rightarrow> pystr \<Rightarrow> int option \<Rightarrow> pystr \<times> event list" where
  "load_text_file fs filepath max_chars =
     (case fs filepath of
        Missing \<Rightarrow> ([], [FileNotFound filepath])
      | Unreadable \<Rightarrow> ([], [ReadError filepath])
      | Content s \<Rightarrow>
          (case max_chars of
             None \<Rightarrow> (s, [])
           | Some n \<Rightarrow> if n \<noteq> 0 then (file_read s n, []) else (s, [])))"

subsection \<open>get_balanced_language_data\<close>

text \<open>
  Lines 125 to 154: the numbers of characters to ask of Wikipedia and of OSCAR, as the
  pair \<open>(wiki_chars, oscar_chars)\<close>.
\<close>

definition distribution :: "int \<Rightarrow> int \<Rightarrow> int \<Rightarrow> int \<times> int" where
  "distribution chars_needed wiki_avail oscar_avail =
     (if oscar_avail = 0 then (min chars_needed wiki_avail, 0)
      else if wiki_avail = 0 then (0, min chars_needed oscar_avail)
      else
        (let target_per_source = chars_needed div 2 in
         if target_per_source \<le> min wiki_avail oscar_avail
         then (target_per_source, chars_needed - target_per_source)
         else if wiki_avail \<ge> chars_needed then
           (let o_chars = min oscar_avail (chars_needed div 2)
            in (chars_needed - o_chars, o_chars))
         else if oscar_avail \<ge> chars_needed then
           (let w_chars = min wiki_avail (chars_needed div 2)
            in (w_chars, chars_needed - w_chars))
         else
           (let w_chars = min wiki_avail chars_needed
            in (w_chars, min oscar_avail (chars_needed - w_chars)))))"

record lang_stats =
  language :: pystr
  wiki_chars :: int
  oscar_chars :: int
  total_chars :: int
  target_chars :: int
  wiki_available :: int
  oscar_available :: int

definition wiki_file_of :: "pystr \<Rightarrow> pystr" where
  "wiki_file_of lang = path_join WIKI_DIR (lang @ str ''_articles.txt'')"

definition oscar_file_of :: "pystr \<Rightarrow> pystr" where
  "oscar_file_of lang = path_join OSCAR_DIR (str ''oscar_'' @ lang @ str ''_50M.txt'')"

text \<open>
  The result is the merged text, the statistics and the events; a language that is not a
  key of \<^verbatim>\<open>LANGUAGE_DATA\<close> raises KeyError.
\<close>

definition get_balanced_language_data ::
  "config \<Rightarrow> filesystem \<Rightarrow> pystr \<Rightarrow> int \<Rightarrow> py_error + (pystr \<times> lang_stats \<times> event list)" where
  "get_balanced_language_data cfg fs lang chars_needed =
     (case map_of (language_data cfg) lang of
        None \<Rightarrow> Inl KeyError
      | Some prof \<Rightarrow>
          (let wiki_file = wiki_file_of lang;
               oscar_file = oscar_file_of lang;
               (w_chars, o_chars) = distribution chars_needed (wiki prof) (oscar prof);
               (wiki_text, ev1) =
                  (if w_chars > 0 then load_text_file fs wiki_file (Some w_chars) else ([], []));
               (oscar_text, ev2) =
                  (if o_chars > 0 then load_text_file fs oscar_file (Some o_chars) else ([], []));
               stats = \<lparr>language = lang,
                        wiki_chars = int (length wiki_text),
                        oscar_chars = int (length oscar_text),
                        total_chars = int (length wiki_text) + int (length oscar_text),
                        target_chars = chars_needed,
                        wiki_available = wiki prof,
                        oscar_available = oscar prof\<rparr>
           in (case interleave_texts wiki_text oscar_text 1000 of
                 Inl e \<Rightarrow> Inl e
               | Inr merged_text \<Rightarrow>
                   if int (length merged_text) > chars_needed
                   then Inr (slice merged_text 0 chars_needed, stats,
                             ev1 @ ev2 @ [Truncated chars_needed])
                   else Inr (merged_text, stats, ev1 @ ev2))))"

subsection \<open>create_balanced_file\<close>

text \<open>
  The f-string \<^verbatim>\<open>"# Language: {lang.upper()}\n{lang_text}\n\n"\<close>.
\<close>

definition language_block :: "pystr \<Rightarrow> pystr \<Rightarrow> pystr" where
  "language_block lang lang_text = str ''# Language: '' @ upper lang @ [10] @ lang_text @ [10, 10]"

text \<open>
  The loop over \<^verbatim>\<open>LANGUAGES\<close>, on the state
  \<open>(all_texts, language_stats, total_collected, events)\<close>. An exception of
  \<^verbatim>\<open>get_balanced_language_data\<close> leaves the loop and the function.
\<close>

type_synonym collected = "pystr list \<times> (pystr \<rightharpoonup> lang_stats) \<times> int \<times> event list"

fun collect_languages ::
  "config \<Rightarrow> filesystem \<Rightarrow> int \<Rightarrow> pystr list \<Rightarrow> collected \<Rightarrow> py_error + collected" where
  "collect_languages cfg fs n [] acc = Inr acc"
| "collect_languages cfg fs n (lang # rest) (all_texts, language_stats, total_collected, evs) =
     (case get_balanced_language_data cfg fs lang n of
        Inl e \<Rightarrow> Inl e
      | Inr (lang_text, stats, ev) \<Rightarrow>
          (let actual = int (length lang_text)
           in collect_languages cfg fs n rest
                (if actual > 0 then all_texts @ [language_block lang lang_text] else all_texts,
                 language_stats(lang \<mapsto> stats),
                 if actual > 0 then total_collected + actual else total_collected,
                 evs @ ev)))"

text \<open>
  The environment of a run: whether the two source directories exist, what reading each
  path gives, and whether a path under the output directory can be created and written
  (\<^verbatim>\<open>os.makedirs\<close> and \<^verbatim>\<open>open(..., 'w')\<close>; a failure raises OSError).
\<close>

record env =
  wiki_dir_exists :: bool
  oscar_dir_exists :: bool
  files :: filesystem
  writable :: "pystr \<Rightarrow> bool"

text \<open>
  The dict that \<^verbatim>\<open>create_balanced_file\<close> returns; the keys \<^verbatim>\<open>'filename'\<close>,
  \<^verbatim>\<open>'target_chars'\<close>, \<^verbatim>\<open>'chars_per_lang'\<close> and \<^verbatim>\<open>'baseline_lang'\<close> are the fields
  \<open>file_name\<close>, \<open>file_target_chars\<close>, \<open>file_chars_per_lang\<close> and \<open>file_baseline_lang\<close>.
\<close>

record file_stats =
  file_name :: pystr
  file_target_chars :: int
  actual_chars :: int
  file_chars_per_lang :: int
  file_baseline_lang :: pystr
  language_stats :: "pystr \<rightharpoonup> lang_stats"

text \<open>
  \<^verbatim>\<open>random.shuffle\<close> acts on the state \<open>'g\<close> of the process-wide generator and is a
  parameter: it takes the state and the list and returns the shuffled list and the next
  state. The function returns the statistics and the file it wrote (path and content), or
  the exception; the events; and the state of the generator. When the loop over the
  languages raises, nothing was shuffled or written, and the events of the languages
  before it are not kept.
\<close>

type_synonym 'g shuffler = "'g \<Rightarrow> pystr list \<Rightarrow> pystr list \<times> 'g"

definition create_balanced_file ::
  "config \<Rightarrow> 'g shuffler \<Rightarrow> env \<Rightarrow> 'g \<Rightarrow> split_config
     \<Rightarrow> (py_error + (file_stats \<times> (pystr \<times> pystr))) \<times> event list \<times> 'g" where
  "create_balanced_file cfg shuffle e g sc =
     (case collect_languages cfg (files e) (chars_per_lang sc) (languages cfg)
             ([], Map.empty, 0, []) of
        Inl err \<Rightarrow> (Inl err, [], g)
      | Inr (all_texts, lstats, total_collected, evs) \<Rightarrow>
          (let (shuffled, g') = shuffle g all_texts;
               final_text = concat shuffled;
               output_path = path_join OUTPUT_DIR (filename sc)
           in if writable e output_path
              then (Inr (\<lparr>file_name = filename sc,
                           file_target_chars = split_total_chars sc,
                           actual_chars = int (length final_text),
                           file_chars_per_lang = chars_per_lang sc,
                           file_baseline_lang = baseline_lang sc,
                           language_stats = lstats\<rparr>,
                         (output_path, final_text)),
                    evs, g')
              else (Inl OSError, evs, g')))"

subsection \<open>The statistics\<close>

text \<open>
  The flag of the summary table of \<^verbatim>\<open>print_detailed_statistics\<close> (line 259), and the
  rows of \<^verbatim>\<open>save_statistics_to_file\<close> without the two percentages, which are floats.
\<close>

definition perfect_balance :: "file_stats \<Rightarrow> bool" where
  "perfect_balance st = (actual_chars st = file_target_chars st)"

record csv_row =
  csv_file :: pystr
  csv_language :: pystr
  csv_is_baseline :: bool
  csv_target_chars :: int
  csv_wiki_chars :: int
  csv_oscar_chars :: int
  csv_total_chars :: int

definition csv_rows_of :: "config \<Rightarrow> file_stats \<Rightarrow> csv_row list" where
  "csv_rows_of cfg st =
     concat (map (\<lambda>lang.
        (case language_stats st lang of
           None \<Rightarrow> []
         | Some stats \<Rightarrow>
             [\<lparr>csv_file = file_name st,
               csv_language = lang,
               csv_is_baseline = (lang = file_baseline_lang st),
               csv_target_chars = target_chars stats,
               csv_wiki_chars = wiki_chars stats,
               csv_oscar_chars = oscar_chars stats,
               csv_total_chars = total_chars stats\<rparr>])) (languages cfg))"

subsection \<open>main\<close>

text \<open>
  What a run leaves behind: the balanced files it wrote, in order; the statistics of the
  splits that succeeded; the rows of the CSV file (None when it was not written); the
  events; and the exception that ended the run, if any.
\<close>

record outputs =
  written_files :: "(pystr \<times> pystr) list"
  all_file_stats :: "file_stats list"
  csv_rows :: "csv_row list option"
  events :: "event list"
  uncaught :: "py_error option"

definition no_outputs :: outputs where
  "no_outputs = \<lparr>written_files = [], all_file_stats = [], csv_rows = None, events = [],
                  uncaught = None\<rparr>"

text \<open>The loop over the splits, with its \<^verbatim>\<open>try\<close> and \<^verbatim>\<open>except Exception\<close>.\<close>

fun run_splits ::
  "config \<Rightarrow> 'g shuffler \<Rightarrow> env \<Rightarrow> 'g \<Rightarrow> (pystr \<times> split_config) list \<Rightarrow> outputs
     \<Rightarrow> outputs \<times> 'g" where
  "run_splits cfg shuffle e g [] out = (out, g)"
| "run_splits cfg shuffle e g ((split_name, sc) # rest) out =
     (case create_balanced_file cfg shuffle e g sc of
        (Inl err, evs, g') \<Rightarrow>
          run_splits cfg shuffle e g' rest
            (out\<lparr>events := events out @ evs @ [SplitFailed (filename sc) err]\<rparr>)
      | (Inr (st, file), evs, g') \<Rightarrow>
          run_splits cfg shuffle e g' rest
            (out\<lparr>written_files := written_files out @ [file],
                  all_file_stats := all_file_stats out @ [st],
                  events := events out @ evs\<rparr>))"

text \<open>
  \<^verbatim>\<open>main\<close>, started with the generator in state \<open>g\<close>. \<^verbatim>\<open>random.seed(42)\<close> puts the
  generator into the state \<open>seed 42\<close>, whatever it was before; \<open>seed\<close> is a parameter like
  \<open>shuffle\<close>.
\<close>

definition main ::
  "float_ops \<Rightarrow> (int \<Rightarrow> 'g) \<Rightarrow> 'g shuffler \<Rightarrow> config \<Rightarrow> env \<Rightarrow> 'g \<Rightarrow> outputs \<times> 'g" where
  "main fo seed shuffle cfg e g =
     (if \<not> wiki_dir_exists e then (no_outputs, g)
      else if \<not> oscar_dir_exists e then (no_outputs, g)
      else
        (let g1 = seed 42
         in (case find_baseline_amounts fo cfg of
               Inl err \<Rightarrow> (no_outputs\<lparr>uncaught := Some err\<rparr>, g1)
             | Inr baseline_configs \<Rightarrow>
                 (let (out, g2) = run_splits cfg shuffle e g1 baseline_configs no_outputs;
                      stats_file = path_join OUTPUT_DIR (str ''balanced_statistics.csv'')
                  in if writable e stats_file
                     then (out\<lparr>csv_rows := Some (concat (map (csv_rows_of cfg) (all_file_stats out)))\<rparr>,
                           g2)
                     else (out\<lparr>uncaught := Some OSError\<rparr>, g2)))))"

subsection \<open>Concrete inputs\<close>

text \<open>
  Small inputs on which the theorems below are evaluated: a table with one language, and
  a file system that holds what the table says.
\<close>

definition tiny_config :: config where
  "tiny_config = \<lparr>languages = [str ''xx''],
                   language_data = [(str ''xx'', \<lparr>wiki = 5, oscar = 1, total = 6\<rparr>)]\<rparr>"

definition tiny_files :: filesystem where
  "tiny_files p = (if p = wiki_file_of (str ''xx'') then Content (str ''aaaaa'')
                   else if p = oscar_file_of (str ''xx'') then Content (str ''b'')
                   else Missing)"

definition even_config :: config where
  "even_config = \<lparr>languages = [str ''hi''],
                   language_data = [(str ''hi'', \<lparr>wiki = 4, oscar = 6, total = 10\<rparr>)]\<rparr>"

definition even_files :: filesystem where
  "even_files p = (if p = wiki_file_of (str ''hi'') then Content (str ''abcd'')
                   else if p = oscar_file_of (str ''hi'') then Content (str ''123456'')
                   else Missing)"

text \<open>
  For the language \<^verbatim>\<open>yo\<close> of the source's table, files that hold exactly the numbers
  of characters that the table gives: 12646633 and 18209.
\<close>

definition exact_yo_files :: filesystem where
  "exact_yo_files p = (if p = wiki_file_of (str ''yo'') then Content (replicate 12646633 97)
                       else if p = oscar_file_of (str ''yo'') then Content (replicate 18209 98)
                       else Missing)"

text \<open>
  For \<^verbatim>\<open>yo\<close> again, a file system without the Wikipedia file, whose OSCAR file holds
  four characters.
\<close>

definition no_wiki_yo_files :: filesystem where
  "no_wiki_yo_files p = (if p = oscar_file_of (str ''yo'') then Content (str ''abcd'') else Missing)"

text \<open>
  Float arithmetic that does not round, and the plans that the source's tables give
  under it.
\<close>

definition exact_float_ops :: float_ops where
  "exact_float_ops = \<lparr>float_of_int = (\<lambda>k. Some (of_int k)), float_mul = (\<lambda>a b. Some (a * b))\<rparr>"

definition source_plans :: "(pystr \<times> split_config) list" where
  "source_plans =
     [(str ''small'', \<lparr>chars_per_lang = 11398357, filename = str ''final_balanced_small.txt'',
                        split_total_chars = 102585213, baseline_lang = str ''yo''\<rparr>),
      (str ''medium'', \<lparr>chars_per_lang = 12664842, filename = str ''final_balanced_medium.txt'',
                         split_total_chars = 113983578, baseline_lang = str ''yo''\<rparr>),
      (str ''large'', \<lparr>chars_per_lang = 12664842, filename = str ''final_balanced_large.txt'',
                        split_total_chars = 113983578, baseline_lang = str ''yo''\<rparr>)]"

text \<open>
  Two shuffles that do not use the generator; source files that hold exactly what the
  source's table says, all of one character; and the medium split of the source.
\<close>

definition keep_order :: "unit shuffler" where
  "keep_order g xs = (xs, g)"

definition reverse_order :: "unit shuffler" where
  "reverse_order g xs = (rev xs, g)"

fun files_of_table :: "(pystr \<times> profile) list \<Rightarrow> filesystem" where
  "files_of_table [] p = Missing"
| "files_of_table ((l, prof) # rest) p =
     (if p = wiki_file_of l then Content (replicate (nat (wiki prof)) 97)
      else if p = oscar_file_of l then Content (replicate (nat (oscar prof)) 98)
      else files_of_table rest p)"

definition complete_files :: filesystem where
  "complete_files = files_of_table LANGUAGE_DATA"

definition complete_env :: env where
  "complete_env = \<lparr>wiki_dir_exists = True, oscar_dir_exists = True,
                    files = complete_files, writable = (\<lambda>p. True)\<rparr>"

definition medium_split :: split_config where
  "medium_split = \<lparr>chars_per_lang = 12664842, filename = str ''final_balanced_medium.txt'',
                    split_total_chars = 113983578, baseline_lang = str ''yo''\<rparr>"

section \<open>Properties of the interleaver\<close>

lemma slice_chunk:
  assumes "0 < k"
  shows "slice xs (int j * int k) (int j * int k + int k) = take k (drop (j * k) xs)"
proof -
  have e: "int j * int k = int (j * k)" by simp
  have a: "clamp_index (int (j * k)) (length xs) = min (j * k) (length xs)"
    by (simp add: clamp_index_def del: of_nat_mult)
  have "int (j * k) + int k = int (j * k + k)" by simp
  then have b: "clamp_index (int (j * k) + int k) (length xs) = min (j * k + k) (length xs)"
    unfolding clamp_index_def by (simp del: of_nat_add of_nat_mult)
  show ?thesis
  proof (cases "j * k \<le> length xs")
    case True
    then have "min (j * k + k) (length xs) - min (j * k) (length xs) = min k (length xs - j * k)"
      by (auto simp: min_def)
    then show ?thesis
      unfolding slice_def Let_def e a b using True by (simp add: min_def)
  next
    case False
    then show ?thesis
      unfolding slice_def Let_def e a b by simp
  qed
qed

lemma chunks_of_pos:
  assumes "0 < k"
  shows "chunks_of xs (int k) =
     Inr (map (\<lambda>j. take k (drop (j * k) xs)) [0..<(length xs + k - 1) div k])"
proof -
  have n: "nat ((int (length xs) + int k - 1) div int k) = (length xs + k - 1) div k"
  proof -
    have "int (length xs) + int k - 1 = int (length xs + k - 1)"
      using assms by (simp add: of_nat_diff)
    then show ?thesis
      by (simp only: zdiv_int [symmetric] nat_int)
  qed
  have m: "map (\<lambda>i. slice xs i (i + int k)) (map (\<lambda>j. int j * int k) [0..<m])
         = map (\<lambda>j. take k (drop (j * k) xs)) [0..<m]" for m
    by (simp add: o_def slice_chunk [OF assms])
  show ?thesis
    unfolding chunks_of_def range0_def using assms
    by (simp add: n o_def slice_chunk)
qed

lemma concat_chunks_take:
  "concat (map (\<lambda>j. take k (drop (j * k) xs)) [0..<m]) = take (m * k) xs"
proof (induction m)
  case 0
  then show ?case by simp
next
  case (Suc m)
  have "take (m * k) xs @ take k (drop (m * k) xs) = take (m * k + k) xs"
    by (simp add: take_add)
  with Suc show ?case by (simp add: add.commute)
qed

lemma concat_chunks:
  assumes "0 < k"
  shows "concat (map (\<lambda>j. take k (drop (j * k) xs)) [0..<(length xs + k - 1) div k]) = xs"
proof -
  have "length xs \<le> (length xs + k - 1) div k * k"
  proof -
    have "length xs + k - 1 = (length xs + k - 1) div k * k + (length xs + k - 1) mod k"
      by simp
    moreover have "(length xs + k - 1) mod k < k" using assms by simp
    ultimately show ?thesis by linarith
  qed
  then show ?thesis by (simp add: concat_chunks_take)
qed

lemma pick_take:
  "concat (map (\<lambda>i. if i < length ys then [ys ! i] else []) [0..<n]) = take n ys"
proof (induction n)
  case 0
  then show ?case by simp
next
  case (Suc n)
  then show ?case by (simp add: take_Suc_conv_app_nth)
qed

lemma interleave_chunks_Nil: "interleave_chunks [] ys = ys"
  by (simp add: interleave_chunks_def pick_take)

lemma interleave_chunks_Nil2: "interleave_chunks xs [] = xs"
  by (simp add: interleave_chunks_def pick_take)

lemma interleave_chunks_Cons:
  "interleave_chunks (x # xs) (y # ys) = x # y # interleave_chunks xs ys"
proof -
  have "[0..<Suc (max (length xs) (length ys))] = 0 # map Suc [0..<max (length xs) (length ys)]"
    by (simp add: upt_conv_Cons map_Suc_upt del: upt_Suc)
  then show ?thesis
    unfolding interleave_chunks_def by (simp add: o_def del: upt_Suc cong: if_cong)
qed

lemma interleave_chunks_alternate: "interleave_chunks xs ys = alternate xs ys"
  by (induction xs ys rule: alternate.induct)
     (simp_all add: interleave_chunks_Nil interleave_chunks_Nil2 interleave_chunks_Cons)

lemma append_in_shuffles_left: "zs \<in> shuffles xs ys \<Longrightarrow> c @ zs \<in> shuffles (c @ xs) ys"
  by (induction c) (simp_all add: Cons_in_shuffles_leftI)

lemma append_in_shuffles_right: "zs \<in> shuffles xs ys \<Longrightarrow> c @ zs \<in> shuffles xs (c @ ys)"
  by (induction c) (simp_all add: Cons_in_shuffles_rightI)

lemma concat_alternate_shuffles:
  "concat (alternate xs ys) \<in> shuffles (concat xs) (concat ys)"
  by (induction xs ys rule: alternate.induct)
     (simp_all add: append_in_shuffles_left append_in_shuffles_right)

lemma interleave_texts_pos:
  assumes "0 < chunk_size"
  shows "\<exists>out. interleave_texts A B chunk_size = Inr out \<and> out \<in> shuffles A B"
proof -
  obtain k where k: "chunk_size = int k" "0 < k"
    using assms by (metis zero_less_imp_eq_int)
  let ?ca = "map (\<lambda>j. take k (drop (j * k) A)) [0..<(length A + k - 1) div k]"
  let ?cb = "map (\<lambda>j. take k (drop (j * k) B)) [0..<(length B + k - 1) div k]"
  have sh: "concat (alternate ?ca ?cb) \<in> shuffles A B"
    using concat_alternate_shuffles [of ?ca ?cb] k(2) by (simp only: concat_chunks)
  show ?thesis
  proof (cases "A = [] \<or> B = []")
    case True
    then show ?thesis by (auto simp: interleave_texts_def)
  next
    case False
    then have "interleave_texts A B chunk_size = Inr (concat (alternate ?ca ?cb))"
      by (simp add: interleave_texts_def k chunks_of_pos interleave_chunks_alternate)
    with sh show ?thesis by simp
  qed
qed

lemma interleave_texts_example:
  "interleave_texts [1, 2, 3 :: nat] [4, 5, 6, 7, 8] 2 = Inr [1, 2, 4, 5, 3, 6, 7, 8]"
  by (simp add: interleave_texts_def chunks_of_def range0_def slice_def clamp_index_def
      interleave_chunks_def upt_conv_Cons)

lemma interleave_texts_zero_chunk:
  "interleave_texts [1, 2, 3 :: nat] [4, 5, 6, 7, 8] 0 = Inl ValueError"
  by (simp add: interleave_texts_def chunks_of_def range0_def)

section \<open>Properties of the allocator\<close>

lemma distribution_bounds:
  assumes "0 < n" "0 \<le> wa" "0 \<le> oa" "distribution n wa oa = (wc, oc)"
  shows "0 \<le> wc \<and> 0 \<le> oc \<and> wc + oc \<le> n"
  using assms
  by (auto simp: distribution_def Let_def min_def split: if_splits)

lemma distribution_within:
  assumes "0 < n" "0 \<le> wa" "0 \<le> oa" "distribution n wa oa = (wc, oc)"
  shows "wc \<le> wa \<and> (oc \<le> oa \<or> (oc = oa + 1 \<and> odd n \<and> oa = n div 2 \<and> 0 < oa \<and> oa \<le> wa))"
  using assms
  by (auto simp: distribution_def Let_def min_def split: if_splits)

lemma distribution_sum:
  assumes "0 < n" "0 \<le> wa" "0 \<le> oa" "n \<le> wa + oa" "distribution n wa oa = (wc, oc)"
  shows "wc + oc = n"
  using assms
  by (auto simp: distribution_def Let_def min_def split: if_splits)

lemma load_text_file_prefix:
  assumes "0 < n"
  shows "load_text_file fs p (Some n) =
     (case fs p of Missing \<Rightarrow> ([], [FileNotFound p])
                 | Unreadable \<Rightarrow> ([], [ReadError p])
                 | Content s \<Rightarrow> (take (nat n) s, []))"
  using assms by (simp add: load_text_file_def file_read_def split: source_file.splits)

lemma load_text_file_length:
  assumes "0 < n"
  shows "int (length (fst (load_text_file fs p (Some n)))) \<le> n"
  using assms by (auto simp: load_text_file_prefix split: source_file.splits)

lemma get_balanced_language_data_eq:
  assumes prof: "map_of (language_data cfg) lang = Some prof"
    and d: "distribution n (wiki prof) (oscar prof) = (wc, oc)"
    and wl: "wl = (if wc > 0 then load_text_file fs (wiki_file_of lang) (Some wc) else ([], []))"
    and ol: "ol = (if oc > 0 then load_text_file fs (oscar_file_of lang) (Some oc) else ([], []))"
    and le: "int (length (fst wl)) + int (length (fst ol)) \<le> n"
  shows "\<exists>merged. merged \<in> shuffles (fst wl) (fst ol) \<and>
    get_balanced_language_data cfg fs lang n =
      Inr (merged,
           \<lparr>language = lang,
            wiki_chars = int (length (fst wl)),
            oscar_chars = int (length (fst ol)),
            total_chars = int (length (fst wl)) + int (length (fst ol)),
            target_chars = n,
            wiki_available = wiki prof,
            oscar_available = oscar prof\<rparr>,
           snd wl @ snd ol)"
proof -
  obtain merged where m: "interleave_texts (fst wl) (fst ol) 1000 = Inr merged"
      "merged \<in> shuffles (fst wl) (fst ol)"
    using interleave_texts_pos [of 1000 "fst wl" "fst ol"] by auto
  have len: "int (length merged) \<le> n"
    using length_shuffles [OF m(2)] le by simp
  have "get_balanced_language_data cfg fs lang n =
      Inr (merged,
           \<lparr>language = lang,
            wiki_chars = int (length (fst wl)),
            oscar_chars = int (length (fst ol)),
            total_chars = int (length (fst wl)) + int (length (fst ol)),
            target_chars = n,
            wiki_available = wiki prof,
            oscar_available = oscar prof\<rparr>,
           snd wl @ snd ol)"
    unfolding get_balanced_language_data_def prof option.case Let_def d prod.case
      wl [symmetric] ol [symmetric]
    using m(1) len by (simp add: case_prod_beta)
  with m(2) show ?thesis by blast
qed

lemma requested_le:
  assumes "0 < n" "0 \<le> wa" "0 \<le> oa" "distribution n wa oa = (wc, oc)"
    and wl: "wl = (if wc > 0 then load_text_file fs pw (Some wc) else ([], []))"
    and ol: "ol = (if oc > 0 then load_text_file fs po (Some oc) else ([], []))"
  shows "int (length (fst wl)) \<le> wc \<and> int (length (fst ol)) \<le> oc
     \<and> int (length (fst wl)) + int (length (fst ol)) \<le> n"
proof -
  from distribution_bounds [OF assms(1-4)] have b: "0 \<le> wc" "0 \<le> oc" "wc + oc \<le> n" by auto
  have "int (length (fst wl)) \<le> wc"
    using b(1) load_text_file_length [of wc fs pw] by (cases "0 < wc") (simp_all add: wl)
  moreover have "int (length (fst ol)) \<le> oc"
    using b(2) load_text_file_length [of oc fs po] by (cases "0 < oc") (simp_all add: ol)
  ultimately show ?thesis using b(3) by linarith
qed

lemma load_text_file_events:
  "set (snd (load_text_file fs p m)) \<subseteq> {FileNotFound p, ReadError p}"
  by (auto simp: load_text_file_def split: source_file.splits option.splits)

lemma map_of_yo:
  "map_of (language_data source_config) (str ''yo'')
     = Some \<lparr>wiki = 12646633, oscar = 18209, total = 12664842\<rparr>"
  by (simp add: source_config_def LANGUAGE_DATA_def)

lemma yo_paths:
  "wiki_file_of (str ''yo'') \<noteq> oscar_file_of (str ''yo'')"
  by (simp add: wiki_file_of_def oscar_file_of_def path_join_def WIKI_DIR_def OSCAR_DIR_def str_def)

lemma distribution_exact:
  assumes "0 < n" "0 \<le> wa" "0 \<le> oa" "n \<le> wa + oa" "distribution n wa oa = (wc, oc)"
    and "\<not> (odd n \<and> oa = n div 2)"
  shows "wc + oc = n \<and> 0 \<le> wc \<and> wc \<le> wa \<and> 0 \<le> oc \<and> oc \<le> oa"
  using assms
  by (auto simp: distribution_def Let_def min_def split: if_splits)

lemma allocator_exact_off_the_boundary:
  assumes n: "0 < n"
    and prof: "map_of (language_data cfg) lang = Some prof"
    and av: "0 \<le> wiki prof" "0 \<le> oscar prof" "n \<le> wiki prof + oscar prof"
    and nb: "\<not> (odd n \<and> oscar prof = n div 2)"
    and fw: "fs (wiki_file_of lang) = Content a" "wiki prof \<le> int (length a)"
    and fo: "fs (oscar_file_of lang) = Content b" "oscar prof \<le> int (length b)"
  shows "\<exists>merged_text st ev.
           get_balanced_language_data cfg fs lang n = Inr (merged_text, st, ev)
         \<and> total_chars st = n \<and> int (length merged_text) = n \<and> ev = []"
proof -
  obtain wc oc where d: "distribution n (wiki prof) (oscar prof) = (wc, oc)"
    by (cases "distribution n (wiki prof) (oscar prof)")
  from distribution_exact [OF n av d nb]
  have b: "wc + oc = n" "0 \<le> wc" "wc \<le> wiki prof" "0 \<le> oc" "oc \<le> oscar prof" by auto
  define wl where "wl = (if wc > 0 then load_text_file fs (wiki_file_of lang) (Some wc) else ([], []))"
  define ol where "ol = (if oc > 0 then load_text_file fs (oscar_file_of lang) (Some oc) else ([], []))"
  have w: "int (length (fst wl)) = wc" "snd wl = []"
    using b(2,3) fw by (auto simp: wl_def load_text_file_prefix)
  have o: "int (length (fst ol)) = oc" "snd ol = []"
    using b(4,5) fo by (auto simp: ol_def load_text_file_prefix)
  have le: "int (length (fst wl)) + int (length (fst ol)) \<le> n"
    using w o b(1) by simp
  from get_balanced_language_data_eq [OF prof d wl_def ol_def le]
  obtain merged where m: "merged \<in> shuffles (fst wl) (fst ol)"
    and g: "get_balanced_language_data cfg fs lang n =
      Inr (merged,
           \<lparr>language = lang,
            wiki_chars = int (length (fst wl)),
            oscar_chars = int (length (fst ol)),
            total_chars = int (length (fst wl)) + int (length (fst ol)),
            target_chars = n,
            wiki_available = wiki prof,
            oscar_available = oscar prof\<rparr>,
           snd wl @ snd ol)"
    by blast
  have "int (length merged) = n"
    using length_shuffles [OF m] w o b(1) by simp
  then show ?thesis using g w o b(1) by simp
qed

lemma load_text_file_positive_limit:
  assumes "0 < max_chars"
  shows "(\<forall>s. fs filepath = Content s \<longrightarrow>
            load_text_file fs filepath (Some max_chars) = (take (nat max_chars) s, []))
       \<and> int (length (fst (load_text_file fs filepath (Some max_chars)))) \<le> max_chars
       \<and> (fs filepath = Missing \<longrightarrow>
            load_text_file fs filepath (Some max_chars) = ([], [FileNotFound filepath]))
       \<and> (fs filepath = Unreadable \<longrightarrow>
            load_text_file fs filepath (Some max_chars) = ([], [ReadError filepath]))"
  using assms load_text_file_length [OF assms, of fs filepath]
  by (simp add: load_text_file_prefix)

lemma load_text_file_failure:
  "fs filepath = Missing \<Longrightarrow> load_text_file fs filepath m = ([], [FileNotFound filepath])"
  "fs filepath = Unreadable \<Longrightarrow> load_text_file fs filepath m = ([], [ReadError filepath])"
  by (simp_all add: load_text_file_def)

text \<open>
  What the allocator does for any language whose Wikipedia file is absent while its OSCAR
  file holds at least \<open>chars_needed\<close> characters: it returns the OSCAR share of the
  policy, taken from the OSCAR file, and the warning is there exactly when the policy
  asked Wikipedia for something.
\<close>

lemma missing_wiki_policy_share:
  assumes "0 < chars_needed"
    and "map_of (language_data cfg) lang = Some prof"
    and "0 \<le> wiki prof" and "0 \<le> oscar prof"
    and "fs (wiki_file_of lang) = Missing"
    and "fs (oscar_file_of lang) = Content b"
    and "chars_needed \<le> int (length b)"
  shows "\<exists>st. get_balanced_language_data cfg fs lang chars_needed
           = Inr (take (nat (snd (distribution chars_needed (wiki prof) (oscar prof)))) b, st,
                  if 0 < fst (distribution chars_needed (wiki prof) (oscar prof))
                  then [FileNotFound (wiki_file_of lang)] else [])
         \<and> wiki_chars st = 0
         \<and> oscar_chars st = snd (distribution chars_needed (wiki prof) (oscar prof))
         \<and> total_chars st = snd (distribution chars_needed (wiki prof) (oscar prof))
         \<and> total_chars st \<le> chars_needed
         \<and> (wiki prof = 0 \<and> chars_needed \<le> oscar prof \<longrightarrow> total_chars st = chars_needed)"
proof -
  obtain wc oc where d: "distribution chars_needed (wiki prof) (oscar prof) = (wc, oc)"
    by (cases "distribution chars_needed (wiki prof) (oscar prof)")
  from distribution_bounds [OF assms(1,3,4) d]
  have b: "0 \<le> wc" "0 \<le> oc" "wc + oc \<le> chars_needed" by auto
  define wl where "wl = (if wc > 0 then load_text_file fs (wiki_file_of lang) (Some wc) else ([], []))"
  define ol where "ol = (if oc > 0 then load_text_file fs (oscar_file_of lang) (Some oc) else ([], []))"
  have w: "fst wl = []" "snd wl = (if 0 < wc then [FileNotFound (wiki_file_of lang)] else [])"
    using assms(5) by (simp_all add: wl_def load_text_file_prefix)
  have o: "fst ol = take (nat oc) b" "snd ol = []"
    using b(2) assms(6) by (auto simp: ol_def load_text_file_prefix)
  have lo: "int (length (fst ol)) = oc"
    using b assms(7) by (simp add: o)
  have le: "int (length (fst wl)) + int (length (fst ol)) \<le> chars_needed"
    using lo b by (simp add: w)
  from get_balanced_language_data_eq [OF assms(2) d wl_def ol_def le]
  obtain merged where m: "merged \<in> shuffles (fst wl) (fst ol)"
    and g: "get_balanced_language_data cfg fs lang chars_needed =
      Inr (merged,
           \<lparr>language = lang,
            wiki_chars = int (length (fst wl)),
            oscar_chars = int (length (fst ol)),
            total_chars = int (length (fst wl)) + int (length (fst ol)),
            target_chars = chars_needed,
            wiki_available = wiki prof,
            oscar_available = oscar prof\<rparr>,
           snd wl @ snd ol)"
    by blast
  have merged: "merged = take (nat oc) b"
    using m by (simp add: w o)
  have full: "oc = chars_needed" if "wiki prof = 0" "chars_needed \<le> oscar prof"
    using d that assms(1) by (auto simp: distribution_def split: if_splits)
  show ?thesis
    using g merged lo b full by (simp add: d w o)
qed

section \<open>Properties of the baseline calculator\<close>

lemma py_int_mono: "x \<le> y \<Longrightarrow> py_int x \<le> py_int y"
proof -
  assume le: "x \<le> y"
  show ?thesis
  proof (cases "0 \<le> x")
    case True
    with le have "0 \<le> y" by simp
    with True le show ?thesis by (simp add: py_int_def floor_mono)
  next
    case False
    show ?thesis
    proof (cases "0 \<le> y")
      case True
      have "\<lceil>x\<rceil> \<le> 0" using False by (simp add: ceiling_le_zero)
      moreover have "0 \<le> \<lfloor>y\<rfloor>" using True by simp
      moreover have "py_int x = \<lceil>x\<rceil>" using False by (simp add: py_int_def)
      moreover have "py_int y = \<lfloor>y\<rfloor>" using True by (simp add: py_int_def)
      ultimately show ?thesis by linarith
    next
      case n: False
      with False le show ?thesis by (simp add: py_int_def ceiling_mono)
    qed
  qed
qed

lemma min_by_in: "min_by key best xs \<in> set (best # xs)"
  by (induction xs arbitrary: best) auto

lemma baseline_total_nonneg:
  assumes "\<forall>item \<in> set (language_data cfg). 0 \<le> total (snd item)"
    and "baseline cfg = Inr (min_lang, min_total)"
  shows "0 \<le> min_total"
proof (cases "language_data cfg")
  case Nil
  with assms(2) show ?thesis by (simp add: baseline_def py_min_def)
next
  case (Cons x rest)
  have "min_by (\<lambda>item. total (snd item)) x rest \<in> set (language_data cfg)"
    using min_by_in [of "\<lambda>item. total (snd item)" x rest] Cons by simp
  then have "0 \<le> total (snd (min_by (\<lambda>item. total (snd item)) x rest))"
    using assms(1) by blast
  with assms(2) Cons show ?thesis by (auto simp: baseline_def py_min_def)
qed

lemma split_entries_nth:
  assumes "split_entries fo cfg ml mt configs = Inr plans"
  shows "length plans = length configs \<and>
    (\<forall>i < length configs. fst (plans ! i) = fst (configs ! i) \<and>
        split_entry fo cfg ml mt (snd (configs ! i)) = Inr (snd (plans ! i)))"
  using assms
proof (induction configs arbitrary: plans)
  case Nil
  then show ?case by simp
next
  case (Cons c configs)
  obtain split_name config where c: "c = (split_name, config)" by (cases c)
  from Cons.prems obtain entry entries where
    e: "split_entry fo cfg ml mt config = Inr entry"
       "split_entries fo cfg ml mt configs = Inr entries"
       "plans = (split_name, entry) # entries"
    by (auto simp: c split: sum.splits)
  from Cons.IH [OF e(2)] have ih: "length entries = length configs"
    "\<forall>i < length configs. fst (entries ! i) = fst (configs ! i) \<and>
        split_entry fo cfg ml mt (snd (configs ! i)) = Inr (snd (entries ! i))"
    by auto
  show ?case
  proof (intro conjI allI impI)
    show "length plans = length (c # configs)" using ih(1) e(3) by simp
  next
    fix i assume "i < length (c # configs)"
    then show "fst (plans ! i) = fst ((c # configs) ! i)"
      using ih(2) e(3) c by (cases i) simp_all
  next
    fix i assume "i < length (c # configs)"
    then show "split_entry fo cfg ml mt (snd ((c # configs) ! i)) = Inr (snd (plans ! i))"
      using ih(2) e(1,3) c by (cases i) simp_all
  qed
qed

lemma split_entry_chars:
  "split_entry fo cfg ml mt c = Inr e \<Longrightarrow> int_times_ratio fo mt (ratio c) = Inr (chars_per_lang e)"
  by (auto simp: split_entry_def split: sum.splits)

lemma int_times_ratio_mono:
  assumes mono: "\<forall>a r1 r2 p1 p2. 0 \<le> a \<and> r1 \<le> r2 \<and> float_mul fo a r1 = Some p1
        \<and> float_mul fo a r2 = Some p2 \<longrightarrow> p1 \<le> p2"
    and conv: "\<forall>k a. 0 \<le> k \<and> float_of_int fo k = Some a \<longrightarrow> 0 \<le> a"
    and "0 \<le> m" "r1 \<le> r2"
    and "int_times_ratio fo m r1 = Inr t1" "int_times_ratio fo m r2 = Inr t2"
  shows "t1 \<le> t2"
proof -
  from assms(5) obtain a p1 where a: "float_of_int fo m = Some a" "float_mul fo a r1 = Some p1"
      "t1 = py_int p1"
    by (auto simp: int_times_ratio_def split: option.splits)
  from assms(6) a(1) obtain p2 where p2: "float_mul fo a r2 = Some p2" "t2 = py_int p2"
    by (auto simp: int_times_ratio_def split: option.splits)
  have "0 \<le> a" using conv assms(3) a(1) by blast
  then have "p1 \<le> p2" using mono assms(4) a(2) p2(1) by blast
  then show ?thesis using a(3) p2(2) by (simp add: py_int_mono)
qed

lemma baseline_source: "baseline source_config = Inr (str ''yo'', 12664842)"
  by (simp add: baseline_def py_min_def source_config_def LANGUAGE_DATA_def)

lemma floor_rat_numeral: "\<lfloor>numeral a / numeral b :: rat\<rfloor> = numeral a div numeral b"
  by (metis floor_divide_of_int_eq of_int_numeral)

lemma small_target:
  "int_times_ratio exact_float_ops 12664842 (8106479329266893 / 9007199254740992) = Inr 11398357"
  by (simp add: int_times_ratio_def exact_float_ops_def py_int_def floor_rat_numeral)

lemma find_baseline_amounts_source:
  "find_baseline_amounts exact_float_ops source_config = Inr source_plans"
proof -
  have one: "int_times_ratio exact_float_ops 12664842 1 = Inr 12664842"
    by (simp add: int_times_ratio_def exact_float_ops_def py_int_def)
  have n: "length (languages source_config) = 9"
    by (simp add: source_config_def LANGUAGES_def)
  show ?thesis
    unfolding find_baseline_amounts_def baseline_amounts_for_def baseline_source split_configs_def
      source_plans_def
    by (simp add: split_entry_def small_target one n)
qed

section \<open>Properties of the file assembler\<close>

lemma length_concat_mset:
  assumes "mset xs = mset ys"
  shows "length (concat xs) = length (concat ys)"
proof -
  have "length (concat zs) = sum_mset (image_mset length (mset zs))" for zs :: "'a list list"
    by (induction zs) simp_all
  then show ?thesis using assms by simp
qed

lemma language_block_length:
  "length (language_block lang txt) = length txt + length lang + 15"
  by (simp add: language_block_def upper_def str_def)

lemma collect_languages_full:
  assumes "0 < n"
    and "\<forall>l \<in> set langs. length l = 2 \<and> (\<exists>m st ev.
           get_balanced_language_data cfg fs l n = Inr (m, st, ev)
         \<and> int (length m) = n \<and> total_chars st = n)"
  shows "\<exists>texts ls tc ev.
      collect_languages cfg fs n langs (t0, l0, tc0, e0) = Inr (texts, ls, tc, ev)
    \<and> length texts = length t0 + length langs
    \<and> tc = tc0 + n * int (length langs)
    \<and> int (length (concat texts)) = int (length (concat t0)) + (n + 17) * int (length langs)
    \<and> (\<forall>l \<in> set langs. \<exists>st. ls l = Some st \<and> total_chars st = n)
    \<and> (\<forall>l. l \<notin> set langs \<longrightarrow> ls l = l0 l)"
  using assms(2)
proof (induction langs arbitrary: t0 l0 tc0 e0)
  case Nil
  then show ?case by simp
next
  case (Cons lang rest)
  from Cons.prems obtain m st ev where g: "get_balanced_language_data cfg fs lang n = Inr (m, st, ev)"
    and lm: "int (length m) = n" and tot: "total_chars st = n" and ll: "length lang = 2"
    by auto
  have rest: "\<forall>l \<in> set rest. length l = 2 \<and> (\<exists>m st ev.
           get_balanced_language_data cfg fs l n = Inr (m, st, ev)
         \<and> int (length m) = n \<and> total_chars st = n)"
    using Cons.prems by simp
  have step: "collect_languages cfg fs n (lang # rest) (t0, l0, tc0, e0)
      = collect_languages cfg fs n rest
          (t0 @ [language_block lang m], l0(lang \<mapsto> st), tc0 + n, e0 @ ev)"
  proof -
    have "m \<noteq> []" using assms(1) lm by auto
    then show ?thesis using lm by (simp add: g Let_def)
  qed
  from Cons.IH [OF rest, of "t0 @ [language_block lang m]" "l0(lang \<mapsto> st)" "tc0 + n" "e0 @ ev"]
  obtain texts ls tc ev' where r:
    "collect_languages cfg fs n rest (t0 @ [language_block lang m], l0(lang \<mapsto> st), tc0 + n, e0 @ ev)
       = Inr (texts, ls, tc, ev')"
    "length texts = length (t0 @ [language_block lang m]) + length rest"
    "tc = tc0 + n + n * int (length rest)"
    "int (length (concat texts)) = int (length (concat (t0 @ [language_block lang m])))
        + (n + 17) * int (length rest)"
    "\<forall>l \<in> set rest. \<exists>st. ls l = Some st \<and> total_chars st = n"
    "\<forall>l. l \<notin> set rest \<longrightarrow> ls l = (l0(lang \<mapsto> st)) l"
    by blast
  have blk: "int (length (language_block lang m)) = n + 17"
    using lm ll by (simp add: language_block_length)
  have a: "length texts = length t0 + length (lang # rest)" using r(2) by simp
  have b: "tc = tc0 + n * int (length (lang # rest))" using r(3) by (simp add: algebra_simps)
  have c: "int (length (concat texts)) = int (length (concat t0)) + (n + 17) * int (length (lang # rest))"
    using r(4) blk by (simp add: algebra_simps)
  have d: "\<forall>l \<in> set (lang # rest). \<exists>st. ls l = Some st \<and> total_chars st = n"
  proof
    fix l assume "l \<in> set (lang # rest)"
    show "\<exists>st. ls l = Some st \<and> total_chars st = n"
    proof (cases "l \<in> set rest")
      case True
      then show ?thesis using r(5) by blast
    next
      case False
      with \<open>l \<in> set (lang # rest)\<close> have "l = lang" by simp
      with False r(6) tot show ?thesis by simp
    qed
  qed
  have e: "\<forall>l. l \<notin> set (lang # rest) \<longrightarrow> ls l = l0 l"
    using r(6) by simp
  show ?case
    unfolding step r(1) using a b c d e by blast
qed

lemma csv_rows_total:
  assumes "\<forall>l \<in> set (languages cfg). \<exists>s. language_stats st l = Some s \<and> total_chars s = n"
  shows "sum_list (map csv_total_chars (csv_rows_of cfg st)) = n * int (length (languages cfg))"
proof -
  have "sum_list (map csv_total_chars (concat (map (\<lambda>lang.
        (case language_stats st lang of
           None \<Rightarrow> []
         | Some stats \<Rightarrow>
             [\<lparr>csv_file = file_name st,
               csv_language = lang,
               csv_is_baseline = (lang = file_baseline_lang st),
               csv_target_chars = target_chars stats,
               csv_wiki_chars = wiki_chars stats,
               csv_oscar_chars = oscar_chars stats,
               csv_total_chars = total_chars stats\<rparr>])) langs))) = n * int (length langs)"
    if "\<forall>l \<in> set langs. \<exists>s. language_stats st l = Some s \<and> total_chars s = n" for langs
    using that
  proof (induction langs)
    case Nil
    then show ?case by simp
  next
    case (Cons l langs)
    then obtain s where "language_stats st l = Some s" "total_chars s = n" by auto
    with Cons show ?case by (simp add: algebra_simps)
  qed
  from this [OF assms] show ?thesis by (simp add: csv_rows_of_def)
qed

lemma create_balanced_file_overhead:
  assumes n: "0 < chars_per_lang sc"
    and langs: "\<forall>l \<in> set (languages cfg). length l = 2 \<and> (\<exists>m st ev.
           get_balanced_language_data cfg (files e) l (chars_per_lang sc) = Inr (m, st, ev)
         \<and> int (length m) = chars_per_lang sc \<and> total_chars st = chars_per_lang sc)"
    and perm: "\<forall>g xs. mset (fst (shuffle g xs)) = mset xs"
    and wr: "writable e (path_join OUTPUT_DIR (filename sc))"
  shows "\<exists>st txt ev g'.
      create_balanced_file cfg shuffle e g sc
        = (Inr (st, (path_join OUTPUT_DIR (filename sc), txt)), ev, g')
    \<and> int (length txt) = actual_chars st
    \<and> actual_chars st = (chars_per_lang sc + 17) * int (length (languages cfg))
    \<and> file_target_chars st = split_total_chars sc
    \<and> sum_list (map csv_total_chars (csv_rows_of cfg st))
        = chars_per_lang sc * int (length (languages cfg))"
proof -
  from collect_languages_full [OF n langs, of "[]" Map.empty 0 "[]"]
  obtain texts ls tc ev where c:
    "collect_languages cfg (files e) (chars_per_lang sc) (languages cfg) ([], Map.empty, 0, [])
       = Inr (texts, ls, tc, ev)"
    "int (length (concat texts)) = (chars_per_lang sc + 17) * int (length (languages cfg))"
    "\<forall>l \<in> set (languages cfg). \<exists>st. ls l = Some st \<and> total_chars st = chars_per_lang sc"
    by auto
  obtain s g' where s: "shuffle g texts = (s, g')" by (cases "shuffle g texts")
  have "mset s = mset texts" using perm s by (metis fst_conv)
  then have len: "length (concat s) = length (concat texts)" by (rule length_concat_mset)
  let ?st = "\<lparr>file_name = filename sc, file_target_chars = split_total_chars sc,
               actual_chars = int (length (concat s)),
               file_chars_per_lang = chars_per_lang sc,
               file_baseline_lang = baseline_lang sc, language_stats = ls\<rparr>"
  have r: "create_balanced_file cfg shuffle e g sc
      = (Inr (?st, (path_join OUTPUT_DIR (filename sc), concat s)), ev, g')"
    using wr by (simp add: create_balanced_file_def c(1) s Let_def)
  have csv: "sum_list (map csv_total_chars (csv_rows_of cfg ?st))
        = chars_per_lang sc * int (length (languages cfg))"
    using c(3) by (intro csv_rows_total) simp
  show ?thesis
    unfolding r using csv len c(2) by simp
qed

lemma wiki_file_of_plain:
  assumes "l = [] \<or> hd l \<noteq> 47"
  shows "wiki_file_of l = str ''wiki_data_final/'' @ l @ str ''_articles.txt''"
proof -
  have "hd (l @ str ''_articles.txt'') \<noteq> 47"
    using assms by (cases l) (simp_all add: str_def)
  then show ?thesis
    by (simp add: wiki_file_of_def path_join_def WIKI_DIR_def str_def)
qed

lemma oscar_file_of_plain:
  "oscar_file_of l = str ''output/oscar_'' @ l @ str ''_50M.txt''"
  by (simp add: oscar_file_of_def path_join_def OSCAR_DIR_def str_def)

lemma files_of_table_hold:
  assumes "distinct (map fst table)"
    and "\<forall>k \<in> set (map fst table). k = [] \<or> hd k \<noteq> 47"
    and "(l, prof) \<in> set table"
  shows "files_of_table table (wiki_file_of l) = Content (replicate (nat (wiki prof)) 97)
       \<and> files_of_table table (oscar_file_of l) = Content (replicate (nat (oscar prof)) 98)"
  using assms
proof (induction table)
  case Nil
  then show ?case by simp
next
  case (Cons entry table)
  obtain k kp where entry: "entry = (k, kp)" by (cases entry)
  have pl: "l = [] \<or> hd l \<noteq> 47" using Cons.prems(2,3) by force
  have pk: "k = [] \<or> hd k \<noteq> 47" using Cons.prems(2) entry by simp
  have wo: "wiki_file_of a \<noteq> oscar_file_of b \<and> oscar_file_of b \<noteq> wiki_file_of a"
    if "a = [] \<or> hd a \<noteq> 47" for a b
    using that by (simp add: wiki_file_of_plain oscar_file_of_plain str_def)
  show ?case
  proof (cases "l = k")
    case True
    then have "prof = kp"
      using Cons.prems(1,3) entry by (force simp: image_iff)
    then show ?thesis
      using True entry wo [OF pk] by simp
  next
    case False
    then have w: "wiki_file_of l \<noteq> wiki_file_of k"
      using pl pk by (simp add: wiki_file_of_plain)
    have o: "oscar_file_of l \<noteq> oscar_file_of k"
      using False by (simp add: oscar_file_of_plain)
    have mem: "(l, prof) \<in> set table" using Cons.prems(3) False entry by simp
    have ih: "files_of_table table (wiki_file_of l) = Content (replicate (nat (wiki prof)) 97)
       \<and> files_of_table table (oscar_file_of l) = Content (replicate (nat (oscar prof)) 98)"
      using Cons.IH [OF _ _ mem] Cons.prems(1,2) by simp
    show ?thesis
      using ih w o wo [OF pl, of k] wo [OF pk, of l] entry by simp
  qed
qed

lemma language_data_keys:
  "distinct (map fst LANGUAGE_DATA)"
  "\<forall>k \<in> set (map fst LANGUAGE_DATA). k = [] \<or> hd k \<noteq> 47"
  by (simp_all add: LANGUAGE_DATA_def str_def)

lemma complete_files_hold:
  assumes "(l, prof) \<in> set LANGUAGE_DATA"
  shows "complete_files (wiki_file_of l) = Content (replicate (nat (wiki prof)) 97)
       \<and> complete_files (oscar_file_of l) = Content (replicate (nat (oscar prof)) 98)"
  unfolding complete_files_def
  using files_of_table_hold [OF language_data_keys assms] .

lemma complete_language:
  assumes "(l, prof) \<in> set LANGUAGE_DATA"
  shows "length l = 2 \<and> (\<exists>m st ev.
      get_balanced_language_data source_config complete_files l 12664842 = Inr (m, st, ev)
    \<and> int (length m) = 12664842 \<and> total_chars st = 12664842)"
proof -
  have len: "length l = 2"
    using assms by (auto simp: LANGUAGE_DATA_def str_def)
  have m: "map_of (language_data source_config) l = Some prof"
    using map_of_is_SomeI [OF language_data_keys(1) assms] by (simp add: source_config_def)
  have av: "0 \<le> wiki prof" "0 \<le> oscar prof" "12664842 \<le> wiki prof + oscar prof"
    using assms by (auto simp: LANGUAGE_DATA_def)
  have nb: "\<not> (odd (12664842::int) \<and> oscar prof = 12664842 div 2)" by simp
  have fw: "complete_files (wiki_file_of l) = Content (replicate (nat (wiki prof)) 97)"
    and fo: "complete_files (oscar_file_of l) = Content (replicate (nat (oscar prof)) 98)"
    using complete_files_hold [OF assms] by auto
  have lw: "wiki prof \<le> int (length (replicate (nat (wiki prof)) (97::nat)))"
    using av(1) by simp
  have lo: "oscar prof \<le> int (length (replicate (nat (oscar prof)) (98::nat)))"
    using av(2) by simp
  from allocator_exact_off_the_boundary [OF _ m av nb fw lw fo lo]
  show ?thesis using len by auto
qed

lemma complete_languages:
  "\<forall>l \<in> set (languages source_config). length l = 2 \<and> (\<exists>m st ev.
       get_balanced_language_data source_config (files complete_env) l
         (chars_per_lang medium_split) = Inr (m, st, ev)
     \<and> int (length m) = chars_per_lang medium_split
     \<and> total_chars st = chars_per_lang medium_split)"
proof
  fix l assume "l \<in> set (languages source_config)"
  then obtain prof where "(l, prof) \<in> set LANGUAGE_DATA"
    by (auto simp: source_config_def LANGUAGES_def LANGUAGE_DATA_def)
  from complete_language [OF this]
  show "length l = 2 \<and> (\<exists>m st ev.
         get_balanced_language_data source_config (files complete_env) l
           (chars_per_lang medium_split) = Inr (m, st, ev)
       \<and> int (length m) = chars_per_lang medium_split
       \<and> total_chars st = chars_per_lang medium_split)"
    by (simp add: complete_env_def medium_split_def)
qed

section \<open>The claims\<close>

text \<open>
  C3. For a positive chunk size, the interleaver returns a text that is an interleaving
  of its two inputs: it is as long as both together and keeps the order of the characters
  of each input (it is one of the shuffles of A and B). An empty input gives the other
  input back.
\<close>

theorem interleave_texts_order_preserving:
  "0 < chunk_size \<Longrightarrow>
     (\<exists>out. interleave_texts A B chunk_size = Inr out
        \<and> length out = length A + length B
        \<and> out \<in> shuffles A B)
     \<and> interleave_texts [] B chunk_size = Inr B
     \<and> interleave_texts A [] chunk_size = Inr A"
proof -
  assume pos: "0 < chunk_size"
  from interleave_texts_pos [OF pos, of A B]
  obtain out where out: "interleave_texts A B chunk_size = Inr out" "out \<in> shuffles A B"
    by blast
  have "length out = length A + length B"
    using out(2) by (rule length_shuffles)
  moreover have "interleave_texts [] B chunk_size = Inr B"
    by (simp add: interleave_texts_def)
  moreover have "interleave_texts A [] chunk_size = Inr A"
    by (cases A) (simp_all add: interleave_texts_def)
  ultimately show ?thesis using out by blast
qed

theorem interleave_texts_order_preserving_witness:
  "(0::int) < 2
     \<and> (\<exists>out. interleave_texts [1, 2, 3 :: nat] [4, 5, 6, 7, 8] 2 = Inr out
          \<and> length out = length [1, 2, 3 :: nat] + length [4, 5, 6, 7, 8 :: nat]
          \<and> out \<in> shuffles [1, 2, 3] [4, 5, 6, 7, 8])
     \<and> interleave_texts [] [4, 5, 6, 7, 8 :: nat] 2 = Inr [4, 5, 6, 7, 8]
     \<and> interleave_texts [1, 2, 3 :: nat] [] 2 = Inr [1, 2, 3]"
proof -
  have pos: "(0::int) < 2" by simp
  show ?thesis
    using pos interleave_texts_order_preserving [OF pos, of "[1, 2, 3 :: nat]" "[4, 5, 6, 7, 8]"]
    by blast
qed

text \<open>
  C2. The reported total is never more than \<open>chars_needed\<close> (the merged text and the total are bounded
  whatever the files hold). The total is not always \<open>chars_needed\<close> when the two
  availabilities together reach it: for \<^verbatim>\<open>yo\<close>, with 12646633 and 18209 characters
  available and files holding exactly that, a request for 36419 characters passes the
  test of line 138 (18209 is at most both availabilities), asks OSCAR for 18210 characters
  and gets 18209, so the total is 36418.
\<close>

theorem odd_request_falls_short:
  "wiki \<lparr>wiki = 12646633, oscar = 18209, total = 12664842\<rparr>
     + oscar \<lparr>wiki = 12646633, oscar = 18209, total = 12664842\<rparr> \<ge> (36419::int)
   \<and> distribution 36419 12646633 18209 = (18209, 18210)
   \<and> (\<exists>merged_text st ev.
        get_balanced_language_data source_config exact_yo_files (str ''yo'') 36419
          = Inr (merged_text, st, ev)
        \<and> wiki_chars st = 18209 \<and> oscar_chars st = 18209 \<and> total_chars st = 36418
        \<and> target_chars st = 36419 \<and> length merged_text = 36418)"
proof -
  let ?prof = "\<lparr>wiki = 12646633, oscar = 18209, total = 12664842\<rparr>"
  have d: "distribution 36419 (wiki ?prof) (oscar ?prof) = (18209, 18210)"
    by (simp add: distribution_def)
  define wl where "wl = (if (18209::int) > 0
     then load_text_file exact_yo_files (wiki_file_of (str ''yo'')) (Some 18209) else ([], []))"
  define ol where "ol = (if (18210::int) > 0
     then load_text_file exact_yo_files (oscar_file_of (str ''yo'')) (Some 18210) else ([], []))"
  have w: "fst wl = replicate 18209 97" "snd wl = []"
    by (simp_all add: wl_def load_text_file_prefix exact_yo_files_def)
  have o: "fst ol = replicate 18209 98" "snd ol = []"
    using yo_paths by (simp_all add: ol_def load_text_file_prefix exact_yo_files_def)
  have le: "int (length (fst wl)) + int (length (fst ol)) \<le> 36419"
    by (simp add: w o)
  from get_balanced_language_data_eq [OF map_of_yo d wl_def ol_def le]
  obtain merged where m: "merged \<in> shuffles (fst wl) (fst ol)"
    and g: "get_balanced_language_data source_config exact_yo_files (str ''yo'') 36419 =
      Inr (merged,
           \<lparr>language = str ''yo'',
            wiki_chars = int (length (fst wl)),
            oscar_chars = int (length (fst ol)),
            total_chars = int (length (fst wl)) + int (length (fst ol)),
            target_chars = 36419,
            wiki_available = wiki ?prof,
            oscar_available = oscar ?prof\<rparr>,
           snd wl @ snd ol)"
    by blast
  have "length merged = 36418"
    using length_shuffles [OF m] by (simp add: w o)
  then show ?thesis
    using d g by (simp add: w o)
qed

text \<open>
  C5. For a positive \<open>chars_needed\<close> and two positive availabilities with
  \<open>chars_needed div 2\<close> at most the smaller one, the policy asks Wikipedia for
  \<open>chars_needed div 2\<close> characters and OSCAR for the rest, so the two counts differ by at
  most one. When both files hold at least what the table says, the counts that the
  statistics report differ by at most one too.
\<close>

theorem even_split:
  assumes "0 < chars_needed"
    and "0 < wiki prof" and "0 < oscar prof"
    and "chars_needed div 2 \<le> min (wiki prof) (oscar prof)"
    and "map_of (language_data cfg) lang = Some prof"
  shows "distribution chars_needed (wiki prof) (oscar prof)
           = (chars_needed div 2, chars_needed - chars_needed div 2)
     \<and> \<bar>chars_needed div 2 - (chars_needed - chars_needed div 2)\<bar> \<le> 1
     \<and> (\<forall>a b. fs (wiki_file_of lang) = Content a \<and> wiki prof \<le> int (length a)
             \<and> fs (oscar_file_of lang) = Content b \<and> oscar prof \<le> int (length b)
          \<longrightarrow> (\<exists>merged_text st ev.
                 get_balanced_language_data cfg fs lang chars_needed = Inr (merged_text, st, ev)
               \<and> wiki_chars st = chars_needed div 2
               \<and> \<bar>wiki_chars st - oscar_chars st\<bar> \<le> 1))"
proof -
  let ?h = "chars_needed div 2"
  have d: "distribution chars_needed (wiki prof) (oscar prof) = (?h, chars_needed - ?h)"
    using assms(1-4) by (simp add: distribution_def Let_def)
  have near: "\<bar>?h - (chars_needed - ?h)\<bar> \<le> 1"
    by presburger
  have used: "\<exists>merged_text st ev.
        get_balanced_language_data cfg fs lang chars_needed = Inr (merged_text, st, ev)
      \<and> wiki_chars st = ?h \<and> \<bar>wiki_chars st - oscar_chars st\<bar> \<le> 1"
    if f: "fs (wiki_file_of lang) = Content a" "wiki prof \<le> int (length a)"
          "fs (oscar_file_of lang) = Content b" "oscar prof \<le> int (length b)" for a b
  proof -
    define wl where "wl = (if ?h > 0 then load_text_file fs (wiki_file_of lang) (Some ?h) else ([], []))"
    define ol where "ol = (if chars_needed - ?h > 0
        then load_text_file fs (oscar_file_of lang) (Some (chars_needed - ?h)) else ([], []))"
    have w: "int (length (fst wl)) = ?h"
      using assms(1,4) f(1,2) by (cases "0 < ?h") (auto simp: wl_def load_text_file_prefix)
    have pos: "0 < chars_needed - ?h" using assms(1) by presburger
    have o1: "int (length (fst ol)) \<le> chars_needed - ?h"
      using pos load_text_file_length [of "chars_needed - ?h" fs "oscar_file_of lang"]
      by (simp add: ol_def)
    have o2: "?h \<le> int (length (fst ol))"
      using pos assms(1,4) f(3,4) by (auto simp: ol_def load_text_file_prefix)
    have le: "int (length (fst wl)) + int (length (fst ol)) \<le> chars_needed"
      using w o1 by linarith
    from get_balanced_language_data_eq [OF assms(5) d wl_def ol_def le]
    obtain merged where "get_balanced_language_data cfg fs lang chars_needed =
      Inr (merged,
           \<lparr>language = lang,
            wiki_chars = int (length (fst wl)),
            oscar_chars = int (length (fst ol)),
            total_chars = int (length (fst wl)) + int (length (fst ol)),
            target_chars = chars_needed,
            wiki_available = wiki prof,
            oscar_available = oscar prof\<rparr>,
           snd wl @ snd ol)"
      by blast
    moreover have "\<bar>int (length (fst wl)) - int (length (fst ol))\<bar> \<le> 1"
      using w o1 o2 by presburger
    ultimately show ?thesis using w by simp
  qed
  show ?thesis using d near used by blast
qed

theorem even_split_witness:
  "(0::int) < 5 \<and> (0::int) < 4 \<and> (0::int) < 6 \<and> (5::int) div 2 \<le> min 4 6
     \<and> map_of (language_data even_config) (str ''hi'') = Some \<lparr>wiki = 4, oscar = 6, total = 10\<rparr>
     \<and> even_files (wiki_file_of (str ''hi'')) = Content (str ''abcd'')
     \<and> (4::int) \<le> int (length (str ''abcd''))
     \<and> even_files (oscar_file_of (str ''hi'')) = Content (str ''123456'')
     \<and> (6::int) \<le> int (length (str ''123456''))
     \<and> distribution 5 4 6 = (2, 3)
     \<and> (\<exists>merged_text st ev.
           get_balanced_language_data even_config even_files (str ''hi'') 5
             = Inr (merged_text, st, ev)
         \<and> wiki_chars st = 2 \<and> \<bar>wiki_chars st - oscar_chars st\<bar> \<le> 1)"
proof -
  have m: "map_of (language_data even_config) (str ''hi'') = Some \<lparr>wiki = 4, oscar = 6, total = 10\<rparr>"
    by (simp add: even_config_def)
  have fw: "even_files (wiki_file_of (str ''hi'')) = Content (str ''abcd'')"
    by (simp add: even_files_def)
  have fo: "even_files (oscar_file_of (str ''hi'')) = Content (str ''123456'')"
    by (simp add: even_files_def wiki_file_of_def oscar_file_of_def path_join_def
        WIKI_DIR_def OSCAR_DIR_def str_def)
  have la: "(4::int) \<le> int (length (str ''abcd''))" by (simp add: str_def)
  have lb: "(6::int) \<le> int (length (str ''123456''))" by (simp add: str_def)
  have h: "(0::int) < 5" "(0::int) < wiki \<lparr>wiki = 4, oscar = 6, total = 10\<rparr>"
      "(0::int) < oscar \<lparr>wiki = 4, oscar = 6, total = 10\<rparr>"
      "(5::int) div 2 \<le> min (wiki \<lparr>wiki = 4, oscar = 6, total = 10\<rparr>) (oscar \<lparr>wiki = 4, oscar = 6, total = 10\<rparr>)"
    by simp_all
  from even_split [OF h m, of even_files]
  have "distribution 5 4 6 = (2, 3)"
    and "\<forall>a b. even_files (wiki_file_of (str ''hi'')) = Content a \<and> 4 \<le> int (length a)
             \<and> even_files (oscar_file_of (str ''hi'')) = Content b \<and> 6 \<le> int (length b)
          \<longrightarrow> (\<exists>merged_text st ev.
                 get_balanced_language_data even_config even_files (str ''hi'') 5 = Inr (merged_text, st, ev)
               \<and> wiki_chars st = 2
               \<and> \<bar>wiki_chars st - oscar_chars st\<bar> \<le> 1)"
    by simp_all
  with m fw fo la lb show ?thesis by simp
qed

text \<open>
  C9. For a positive \<open>chars_needed\<close> and availabilities that are not negative, the two
  counts that the policy asks for are not negative and their sum is at most
  \<open>chars_needed\<close>, in every branch. So the merged text of the allocator is never longer
  than \<open>chars_needed\<close>, whatever the files hold: it is as long as the reported total,
  and the truncation of lines 171 to 173 does not happen.
\<close>

theorem truncation_unreachable:
  assumes "0 < chars_needed"
    and "0 \<le> wiki_avail" and "0 \<le> oscar_avail"
    and "map_of (language_data cfg) lang = Some prof"
    and "wiki prof = wiki_avail" and "oscar prof = oscar_avail"
  shows "0 \<le> fst (distribution chars_needed wiki_avail oscar_avail)
     \<and> 0 \<le> snd (distribution chars_needed wiki_avail oscar_avail)
     \<and> fst (distribution chars_needed wiki_avail oscar_avail)
         + snd (distribution chars_needed wiki_avail oscar_avail) \<le> chars_needed
     \<and> (\<exists>merged_text st ev.
           get_balanced_language_data cfg fs lang chars_needed = Inr (merged_text, st, ev)
         \<and> int (length merged_text) \<le> chars_needed
         \<and> int (length merged_text) = total_chars st
         \<and> (\<forall>k. Truncated k \<notin> set ev))"
proof -
  obtain wc oc where d: "distribution chars_needed wiki_avail oscar_avail = (wc, oc)"
    by (cases "distribution chars_needed wiki_avail oscar_avail")
  define wl where "wl = (if wc > 0 then load_text_file fs (wiki_file_of lang) (Some wc) else ([], []))"
  define ol where "ol = (if oc > 0 then load_text_file fs (oscar_file_of lang) (Some oc) else ([], []))"
  have b: "0 \<le> wc \<and> 0 \<le> oc \<and> wc + oc \<le> chars_needed"
    using distribution_bounds [OF assms(1-3) d] .
  have le: "int (length (fst wl)) + int (length (fst ol)) \<le> chars_needed"
    using requested_le [OF assms(1-3) d wl_def ol_def] by simp
  have d': "distribution chars_needed (wiki prof) (oscar prof) = (wc, oc)"
    using d assms(5,6) by simp
  from get_balanced_language_data_eq [OF assms(4) d' wl_def ol_def le]
  obtain merged where m: "merged \<in> shuffles (fst wl) (fst ol)"
    and g: "get_balanced_language_data cfg fs lang chars_needed =
      Inr (merged,
           \<lparr>language = lang,
            wiki_chars = int (length (fst wl)),
            oscar_chars = int (length (fst ol)),
            total_chars = int (length (fst wl)) + int (length (fst ol)),
            target_chars = chars_needed,
            wiki_available = wiki prof,
            oscar_available = oscar prof\<rparr>,
           snd wl @ snd ol)"
    by blast
  have len: "int (length merged) = int (length (fst wl)) + int (length (fst ol))"
    using length_shuffles [OF m] by simp
  have ev: "Truncated k \<notin> set (snd wl @ snd ol)" for k
    using load_text_file_events [of fs "wiki_file_of lang" "Some wc"]
      load_text_file_events [of fs "oscar_file_of lang" "Some oc"]
    by (auto simp: wl_def ol_def)
  show ?thesis
    using b g len le ev by (simp add: d)
qed

theorem truncation_unreachable_witness:
  "(0::int) < 3 \<and> (0::int) \<le> 5 \<and> (0::int) \<le> 1
     \<and> map_of (language_data tiny_config) (str ''xx'') = Some \<lparr>wiki = 5, oscar = 1, total = 6\<rparr>
     \<and> 0 \<le> fst (distribution 3 5 1)
     \<and> 0 \<le> snd (distribution 3 5 1)
     \<and> fst (distribution 3 5 1) + snd (distribution 3 5 1) \<le> 3
     \<and> (\<exists>merged_text st ev.
           get_balanced_language_data tiny_config tiny_files (str ''xx'') 3
             = Inr (merged_text, st, ev)
         \<and> int (length merged_text) \<le> 3
         \<and> int (length merged_text) = total_chars st
         \<and> (\<forall>k. Truncated k \<notin> set ev))"
proof -
  have m: "map_of (language_data tiny_config) (str ''xx'') = Some \<lparr>wiki = 5, oscar = 1, total = 6\<rparr>"
    by (simp add: tiny_config_def)
  show ?thesis
    using m truncation_unreachable [of 3 5 1 tiny_config "str ''xx''"
        "\<lparr>wiki = 5, oscar = 1, total = 6\<rparr>" tiny_files]
    by simp
qed

text \<open>
  C4. The availabilities come from the table and not from the files, and nothing makes
  up for a file that is absent. With the table of the source, a request of four
  characters for \<^verbatim>\<open>yo\<close> is split two and two; when the Wikipedia file is absent, the
  warning is logged and no exception is raised, but the allocator returns two characters
  and reports a total of two, although the OSCAR file holds the four that were asked for.
  Only a language whose table entry gives Wikipedia no characters is filled from OSCAR
  alone (the branch of line 129).
\<close>

theorem missing_wiki_loses_share:
  "no_wiki_yo_files (wiki_file_of (str ''yo'')) = Missing
   \<and> no_wiki_yo_files (oscar_file_of (str ''yo'')) = Content (str ''abcd'')
   \<and> (4::int) \<le> int (length (str ''abcd''))
   \<and> get_balanced_language_data source_config no_wiki_yo_files (str ''yo'') 4
       = Inr (str ''ab'',
              \<lparr>language = str ''yo'', wiki_chars = 0, oscar_chars = 2, total_chars = 2,
               target_chars = 4, wiki_available = 12646633, oscar_available = 18209\<rparr>,
              [FileNotFound (wiki_file_of (str ''yo''))])
   \<and> total_chars \<lparr>language = str ''yo'', wiki_chars = 0, oscar_chars = 2, total_chars = 2,
               target_chars = 4, wiki_available = 12646633, oscar_available = 18209\<rparr> \<noteq> 4"
proof -
  have w: "no_wiki_yo_files (wiki_file_of (str ''yo'')) = Missing"
    using yo_paths by (simp add: no_wiki_yo_files_def)
  have o: "no_wiki_yo_files (oscar_file_of (str ''yo'')) = Content (str ''abcd'')"
    by (simp add: no_wiki_yo_files_def)
  have d: "distribution 4 12646633 18209 = (2, 2)"
    by (simp add: distribution_def)
  have i: "interleave_texts [] (str ''ab'') 1000 = Inr (str ''ab'')"
    by (simp add: interleave_texts_def)
  have "get_balanced_language_data source_config no_wiki_yo_files (str ''yo'') 4
       = Inr (str ''ab'',
              \<lparr>language = str ''yo'', wiki_chars = 0, oscar_chars = 2, total_chars = 2,
               target_chars = 4, wiki_available = 12646633, oscar_available = 18209\<rparr>,
              [FileNotFound (wiki_file_of (str ''yo''))])"
    unfolding get_balanced_language_data_def map_of_yo option.case Let_def
    by (simp add: d load_text_file_prefix w o) (simp add: str_def interleave_texts_def)
  with w o show ?thesis by (simp add: str_def)
qed

text \<open>
  C8. With a positive \<open>max_chars\<close> the loader returns the first \<open>max_chars\<close> characters of
  the file, and a missing or unreadable file gives the empty string and a warning
  (\<open>load_text_file_positive_limit\<close>, \<open>load_text_file_failure\<close>). With \<open>max_chars = 0\<close> the
  test of line 69 fails and the loader returns the whole file.
\<close>

theorem zero_limit_reads_whole_file:
  "load_text_file (\<lambda>p. Content (str ''abc'')) (str ''f.txt'') (Some 0) = (str ''abc'', [])
   \<and> \<not> int (length (fst (load_text_file (\<lambda>p. Content (str ''abc'')) (str ''f.txt'') (Some 0)))) \<le> 0"
  by (simp add: load_text_file_def str_def)

text \<open>
  C7. The plans that the baseline calculator derives from one table are monotone in the
  ratio: of two configured splits, the one whose ratio is not smaller gets a per-language
  target that is not smaller. This holds for any list of split configurations and any
  float arithmetic whose product is monotone in its second factor for a first factor that
  is not negative, as rounding to nearest is; the totals of the table are character
  counts, so they are not negative.
\<close>

theorem target_monotone_in_ratio:
  assumes "\<forall>a r1 r2 p1 p2. 0 \<le> a \<and> r1 \<le> r2 \<and> float_mul fo a r1 = Some p1
        \<and> float_mul fo a r2 = Some p2 \<longrightarrow> p1 \<le> p2"
    and "\<forall>k a. 0 \<le> k \<and> float_of_int fo k = Some a \<longrightarrow> 0 \<le> a"
    and "\<forall>item \<in> set (language_data cfg). 0 \<le> total (snd item)"
    and "baseline_amounts_for fo cfg configs = Inr plans"
    and "i < length configs" and "j < length configs"
    and "ratio (snd (configs ! i)) \<le> ratio (snd (configs ! j))"
  shows "length plans = length configs
     \<and> chars_per_lang (snd (plans ! i)) \<le> chars_per_lang (snd (plans ! j))"
proof -
  from assms(4) obtain ml mt where b: "baseline cfg = Inr (ml, mt)"
    and s: "split_entries fo cfg ml mt configs = Inr plans"
    by (auto simp: baseline_amounts_for_def split: sum.splits)
  have mt: "0 \<le> mt" using baseline_total_nonneg [OF assms(3) b] .
  from split_entries_nth [OF s] assms(5,6)
  have len: "length plans = length configs"
    and ei: "split_entry fo cfg ml mt (snd (configs ! i)) = Inr (snd (plans ! i))"
    and ej: "split_entry fo cfg ml mt (snd (configs ! j)) = Inr (snd (plans ! j))"
    by auto
  from ei have ti: "int_times_ratio fo mt (ratio (snd (configs ! i))) = Inr (chars_per_lang (snd (plans ! i)))"
    by (rule split_entry_chars)
  from ej have tj: "int_times_ratio fo mt (ratio (snd (configs ! j))) = Inr (chars_per_lang (snd (plans ! j)))"
    by (rule split_entry_chars)
  show ?thesis
    using len int_times_ratio_mono [OF assms(1,2) mt assms(7) ti tj] by simp
qed

theorem target_monotone_in_ratio_witness:
  "baseline_amounts_for exact_float_ops source_config split_configs = Inr source_plans
   \<and> 0 < length split_configs \<and> 1 < length split_configs
   \<and> ratio (snd (split_configs ! 0)) \<le> ratio (snd (split_configs ! 1))
   \<and> chars_per_lang (snd (source_plans ! 0)) = 11398357
   \<and> chars_per_lang (snd (source_plans ! 1)) = 12664842
   \<and> chars_per_lang (snd (source_plans ! 0)) \<le> chars_per_lang (snd (source_plans ! 1))"
proof -
  have h1: "\<forall>a r1 r2 p1 p2. 0 \<le> a \<and> r1 \<le> r2 \<and> float_mul exact_float_ops a r1 = Some p1
        \<and> float_mul exact_float_ops a r2 = Some p2 \<longrightarrow> p1 \<le> p2"
    by (auto simp: exact_float_ops_def mult_left_mono)
  have h2: "\<forall>k a. 0 \<le> k \<and> float_of_int exact_float_ops k = Some a \<longrightarrow> 0 \<le> a"
    by (auto simp: exact_float_ops_def)
  have h3: "\<forall>item \<in> set (language_data source_config). 0 \<le> total (snd item)"
    by (simp add: source_config_def LANGUAGE_DATA_def)
  have h4: "baseline_amounts_for exact_float_ops source_config split_configs = Inr source_plans"
    using find_baseline_amounts_source by (simp add: find_baseline_amounts_def)
  have h5: "0 < length split_configs" and h6: "1 < length split_configs"
    by (simp_all add: split_configs_def)
  have h7: "ratio (snd (split_configs ! 0)) \<le> ratio (snd (split_configs ! 1))"
    by (simp add: split_configs_def)
  have v: "chars_per_lang (snd (source_plans ! 0)) = 11398357"
      "chars_per_lang (snd (source_plans ! 1)) = 12664842"
    by (simp_all add: source_plans_def)
  from target_monotone_in_ratio [OF h1 h2 h3 h4 h5 h6 h7]
  have "chars_per_lang (snd (source_plans ! 0)) \<le> chars_per_lang (snd (source_plans ! 1))"
    by simp
  with h4 h5 h6 h7 v show ?thesis by blast
qed

text \<open>
  C10. What the file assembler reports does not depend on the shuffle: with any two
  shuffles that return a permutation of their list, and any two states of the generator,
  the statistics (among them \<open>actual_chars\<close> and the per-language counts), the path, the
  length of the written text, the events and the exception, if any, are the same, and the
  two texts are made of the same blocks.
\<close>

theorem statistics_independent_of_shuffle:
  assumes "\<forall>g xs. mset (fst (shuffle1 g xs)) = mset xs"
    and "\<forall>g xs. mset (fst (shuffle2 g xs)) = mset xs"
  shows "map_sum id (\<lambda>(st, path, txt). (st, path, length txt))
           (fst (create_balanced_file cfg shuffle1 e g1 sc))
       = map_sum id (\<lambda>(st, path, txt). (st, path, length txt))
           (fst (create_balanced_file cfg shuffle2 e g2 sc))
     \<and> fst (snd (create_balanced_file cfg shuffle1 e g1 sc))
       = fst (snd (create_balanced_file cfg shuffle2 e g2 sc))
     \<and> (\<forall>st1 path1 txt1 st2 path2 txt2.
           fst (create_balanced_file cfg shuffle1 e g1 sc) = Inr (st1, path1, txt1)
         \<and> fst (create_balanced_file cfg shuffle2 e g2 sc) = Inr (st2, path2, txt2)
         \<longrightarrow> (\<exists>blocks1 blocks2. txt1 = concat blocks1 \<and> txt2 = concat blocks2
                 \<and> mset blocks1 = mset blocks2))"
proof (cases "collect_languages cfg (files e) (chars_per_lang sc) (languages cfg)
                ([], Map.empty, 0, [])")
  case (Inl err)
  then show ?thesis by (simp add: create_balanced_file_def)
next
  case (Inr acc)
  obtain all_texts lstats total_collected evs where acc: "acc = (all_texts, lstats, total_collected, evs)"
    by (cases acc)
  obtain s1 g1' where s1: "shuffle1 g1 all_texts = (s1, g1')" by (cases "shuffle1 g1 all_texts")
  obtain s2 g2' where s2: "shuffle2 g2 all_texts = (s2, g2')" by (cases "shuffle2 g2 all_texts")
  have m1: "mset s1 = mset all_texts" using assms(1) s1 by (metis fst_conv)
  have m2: "mset s2 = mset all_texts" using assms(2) s2 by (metis fst_conv)
  have len: "length (concat s1) = length (concat s2)"
    using length_concat_mset [of s1 s2] m1 m2 by simp
  have r1: "create_balanced_file cfg shuffle1 e g1 sc =
     (if writable e (path_join OUTPUT_DIR (filename sc))
      then (Inr (\<lparr>file_name = filename sc, file_target_chars = split_total_chars sc,
                  actual_chars = int (length (concat s1)),
                  file_chars_per_lang = chars_per_lang sc,
                  file_baseline_lang = baseline_lang sc, language_stats = lstats\<rparr>,
                 (path_join OUTPUT_DIR (filename sc), concat s1)), evs, g1')
      else (Inl OSError, evs, g1'))"
    by (simp add: create_balanced_file_def Inr acc s1 Let_def)
  have r2: "create_balanced_file cfg shuffle2 e g2 sc =
     (if writable e (path_join OUTPUT_DIR (filename sc))
      then (Inr (\<lparr>file_name = filename sc, file_target_chars = split_total_chars sc,
                  actual_chars = int (length (concat s2)),
                  file_chars_per_lang = chars_per_lang sc,
                  file_baseline_lang = baseline_lang sc, language_stats = lstats\<rparr>,
                 (path_join OUTPUT_DIR (filename sc), concat s2)), evs, g2')
      else (Inl OSError, evs, g2'))"
    by (simp add: create_balanced_file_def Inr acc s2 Let_def)
  show ?thesis
  proof (cases "writable e (path_join OUTPUT_DIR (filename sc))")
    case True
    have "\<exists>blocks1 blocks2. concat s1 = concat blocks1 \<and> concat s2 = concat blocks2
        \<and> mset blocks1 = mset blocks2"
      using m1 m2 by (intro exI [of _ s1] exI [of _ s2]) simp
    then show ?thesis using True len by (auto simp: r1 r2)
  next
    case False
    then show ?thesis by (simp add: r1 r2)
  qed
qed

theorem statistics_independent_of_shuffle_witness:
  "(\<forall>g xs. mset (fst (keep_order g xs)) = mset xs)
   \<and> (\<forall>g xs. mset (fst (reverse_order g xs)) = mset xs)
   \<and> (\<exists>st1 path1 txt1 st2 path2 txt2.
         fst (create_balanced_file source_config keep_order complete_env () medium_split)
           = Inr (st1, path1, txt1)
       \<and> fst (create_balanced_file source_config reverse_order complete_env () medium_split)
           = Inr (st2, path2, txt2)
       \<and> st1 = st2 \<and> path1 = path2 \<and> length txt1 = length txt2
       \<and> (\<exists>blocks1 blocks2. txt1 = concat blocks1 \<and> txt2 = concat blocks2
             \<and> mset blocks1 = mset blocks2))
   \<and> fst (snd (create_balanced_file source_config keep_order complete_env () medium_split))
       = fst (snd (create_balanced_file source_config reverse_order complete_env () medium_split))"
proof -
  have h1: "\<forall>g xs. mset (fst (keep_order g xs)) = mset xs"
    by (simp add: keep_order_def)
  have h2: "\<forall>g xs. mset (fst (reverse_order g xs)) = mset xs"
    by (simp add: reverse_order_def)
  have n: "0 < chars_per_lang medium_split" by (simp add: medium_split_def)
  have wr: "writable complete_env (path_join OUTPUT_DIR (filename medium_split))"
    by (simp add: complete_env_def)
  from create_balanced_file_overhead [OF n complete_languages h1 wr, of "()"]
  obtain st1 t1 where r1:
    "fst (create_balanced_file source_config keep_order complete_env () medium_split)
       = Inr (st1, path_join OUTPUT_DIR (filename medium_split), t1)"
    by force
  from create_balanced_file_overhead [OF n complete_languages h2 wr, of "()"]
  obtain st2 t2 where r2:
    "fst (create_balanced_file source_config reverse_order complete_env () medium_split)
       = Inr (st2, path_join OUTPUT_DIR (filename medium_split), t2)"
    by force
  note indep = statistics_independent_of_shuffle [OF h1 h2, of source_config complete_env "()"
      medium_split "()"]
  from indep have eq: "st1 = st2" "length t1 = length t2"
    by (simp_all add: r1 r2)
  from indep r1 r2 have "\<exists>blocks1 blocks2. t1 = concat blocks1 \<and> t2 = concat blocks2
      \<and> mset blocks1 = mset blocks2"
    by blast
  with eq r1 r2 have "\<exists>st1 path1 txt1 st2 path2 txt2.
         fst (create_balanced_file source_config keep_order complete_env () medium_split)
           = Inr (st1, path1, txt1)
       \<and> fst (create_balanced_file source_config reverse_order complete_env () medium_split)
           = Inr (st2, path2, txt2)
       \<and> st1 = st2 \<and> path1 = path2 \<and> length txt1 = length txt2
       \<and> (\<exists>blocks1 blocks2. txt1 = concat blocks1 \<and> txt2 = concat blocks2
             \<and> mset blocks1 = mset blocks2)"
    by blast
  with h1 h2 indep show ?thesis by blast
qed

text \<open>
  C6. A run seeds the generator before it draws from it, so what a run produces (the
  files written and their contents, the statistics, the rows of the CSV file, the events
  and the exception, if any) is the same for every state in which the generator was when
  the run began: two runs on the same inputs produce the same files.
\<close>

theorem seeded_run_is_reproducible:
  "fst (main fo seed shuffle cfg e g) = fst (main fo seed shuffle cfg e g')"
  by (simp add: main_def)

text \<open>
  C1. The medium split of the source, on source files that hold exactly what the table
  says, so that every language has what the split asks for: the per-language totals of
  the CSV rows sum to the target, 113983578, but \<open>actual_chars\<close> is the length of the
  written file, headers and separators included, 113983731. The two differ by the 17
  characters around each of the nine blocks, and the balance flag is false.
\<close>

theorem headers_counted_in_actual_chars:
  "\<exists>st txt ev.
      create_balanced_file source_config reverse_order complete_env () medium_split
        = (Inr (st, (path_join OUTPUT_DIR (str ''final_balanced_medium.txt''), txt)), ev, ())
    \<and> file_target_chars st = 113983578
    \<and> sum_list (map csv_total_chars (csv_rows_of source_config st)) = 113983578
    \<and> actual_chars st = 113983731
    \<and> int (length txt) = 113983731
    \<and> \<not> perfect_balance st"
proof -
  have n: "0 < chars_per_lang medium_split" by (simp add: medium_split_def)
  note langs = complete_languages
  have perm: "\<forall>g xs. mset (fst (reverse_order g xs)) = mset xs"
    by (simp add: reverse_order_def)
  have wr: "writable complete_env (path_join OUTPUT_DIR (filename medium_split))"
    by (simp add: complete_env_def)
  have nl: "length (languages source_config) = 9"
    by (simp add: source_config_def LANGUAGES_def)
  from create_balanced_file_overhead [OF n langs perm wr, of "()"]
  obtain st final_text ev g' where r:
    "create_balanced_file source_config reverse_order complete_env () medium_split
        = (Inr (st, (path_join OUTPUT_DIR (filename medium_split), final_text)), ev, g')"
    "int (length final_text) = actual_chars st"
    "actual_chars st = (chars_per_lang medium_split + 17) * int (length (languages source_config))"
    "file_target_chars st = split_total_chars medium_split"
    "sum_list (map csv_total_chars (csv_rows_of source_config st))
        = chars_per_lang medium_split * int (length (languages source_config))"
    by blast
  have "actual_chars st = 113983731" using r(3) by (simp add: nl medium_split_def)
  moreover have "file_target_chars st = 113983578" using r(4) by (simp add: medium_split_def)
  moreover have "sum_list (map csv_total_chars (csv_rows_of source_config st)) = 113983578"
    using r(5) by (simp add: nl medium_split_def)
  ultimately show ?thesis
    using r(1,2) by (simp add: medium_split_def perfect_balance_def)
qed

end
